theory Spec2Isabelle
  imports Main "HOL-Library.AList"
begin

section \<open>Data model\<close>

text \<open>
  Python strings are lists of characters; the characters of the model are the code points
  below 256. Python integers are unbounded (\<open>int\<close>).
\<close>

text \<open>
  A \<open>float\<close> is kept as the decimal number its literal denotes, \<open>mantissa * 10 ^ exponent\<close>
  (the binary64 value is the one nearest to it), or as one of the special values; rounding
  is outside the model.
\<close>

datatype py_float = Decimal int int | Infinity bool | NaN

text \<open>The class \<open>ThreeHourForecast\<close> (lines 24-31).\<close>

record ThreeHourForecast =
  hour :: int
  temperature :: py_float
  wind_speed :: int
  wind_direction :: string
  rain_fall :: py_float

text \<open>The constants of lines 11-12.\<close>

definition HOUR_RANGE :: "int \<times> int" where
  "HOUR_RANGE = (9, 16)"

definition MIN_WIND_SPEED :: int where
  "MIN_WIND_SPEED = 20"

section \<open>The threshold classifier\<close>

text \<open>The property \<open>is_strong\<close> (lines 69-76).\<close>

definition is_strong :: "ThreeHourForecast \<Rightarrow> bool" where
  "is_strong self =
     (case HOUR_RANGE of (start_hour, end_hour) \<Rightarrow>
        wind_speed self \<ge> MIN_WIND_SPEED \<and> (start_hour \<le> hour self \<and> hour self \<le> end_hour))"

section \<open>Built-in conversions\<close>

text \<open>
  The characters that \<open>int\<close> and \<open>float\<close> strip from both ends of their argument:
  tab, line feed, vertical tab, form feed, carriage return and space, and the two
  characters U+0085 and U+00A0.
\<close>

definition py_isspace :: "char \<Rightarrow> bool" where
  "py_isspace c = (c \<in> set [CHR 0x09, CHR 0x0A, CHR 0x0B, CHR 0x0C, CHR 0x0D, CHR 0x20,
                              CHR 0x85, CHR 0xA0])"

definition strip :: "string \<Rightarrow> string" where
  "strip s = rev (dropWhile py_isspace (rev (dropWhile py_isspace s)))"

definition is_digit :: "char \<Rightarrow> bool" where
  "is_digit c = (48 \<le> (of_char c :: nat) \<and> (of_char c :: nat) \<le> 57)"

definition digit_val :: "char \<Rightarrow> nat" where
  "digit_val c = of_char c - 48"

text \<open>The number a string of decimal digits denotes.\<close>

definition nat_of_digits :: "string \<Rightarrow> nat" where
  "nat_of_digits ds = foldl (\<lambda>n c. 10 * n + digit_val c) 0 ds"

text \<open>
  A digit part, \<open>digit (["_"] digit)*\<close>: an underscore only between two digits.
\<close>

fun digitpart :: "string \<Rightarrow> bool" where
  "digitpart [] = False"
| "digitpart [c] = is_digit c"
| "digitpart (c # d # r) =
     (is_digit c \<and> (if d = CHR ''_'' then digitpart r else digitpart (d # r)))"

definition without_underscores :: "string \<Rightarrow> string" where
  "without_underscores s = filter (\<lambda>c. c \<noteq> CHR ''_'') s"

text \<open>
  An optional sign in front of a string: whether it is a minus, and the rest.
\<close>

definition split_sign :: "string \<Rightarrow> bool \<times> string" where
  "split_sign s =
     (case s of
        [] \<Rightarrow> (False, [])
      | c # r \<Rightarrow>
          if c = CHR ''-'' then (True, r)
          else if c = CHR ''+'' then (False, r)
          else (False, s))"

definition signed :: "bool \<Rightarrow> nat \<Rightarrow> int" where
  "signed neg n = (if neg then - int n else int n)"

text \<open>
  \<open>int(s)\<close> for a string: \<open>None\<close> stands for the \<open>ValueError\<close> it raises.
\<close>

definition py_int :: "string \<Rightarrow> int option" where
  "py_int s =
     (case split_sign (strip s) of
        (neg, body) \<Rightarrow>
          if digitpart body then Some (signed neg (nat_of_digits (without_underscores body)))
          else None)"

text \<open>
  \<open>float(s)\<close> for a string. Underscores are checked first (allowed only after a digit and
  before a digit) and removed; then the text is an optional sign and either \<open>inf\<close>,
  \<open>infinity\<close> or \<open>nan\<close> in any case, or digits with an optional point and an optional
  exponent, with a digit before or after the point.
\<close>

fun underscores_ok :: "char \<Rightarrow> string \<Rightarrow> bool" where
  "underscores_ok prev [] = (prev \<noteq> CHR ''_'')"
| "underscores_ok prev (c # r) =
     (if c = CHR ''_'' then is_digit prev \<and> underscores_ok c r
      else if prev = CHR ''_'' then is_digit c \<and> underscores_ok c r
      else underscores_ok c r)"

definition to_lower :: "char \<Rightarrow> char" where
  "to_lower c =
     (if 65 \<le> (of_char c :: nat) \<and> (of_char c :: nat) \<le> 90
      then char_of ((of_char c :: nat) + 32) else c)"

definition parse_inf_or_nan :: "bool \<Rightarrow> string \<Rightarrow> py_float option" where
  "parse_inf_or_nan neg body =
     (let l = map to_lower body in
      if l = ''inf'' \<or> l = ''infinity'' then Some (Infinity neg)
      else if l = ''nan'' then Some NaN
      else None)"

definition parse_exponent :: "string \<Rightarrow> int option" where
  "parse_exponent s =
     (case s of
        [] \<Rightarrow> Some 0
      | c # r \<Rightarrow>
          if c = CHR ''e'' \<or> c = CHR ''E'' then
            (case split_sign r of
               (neg, ds) \<Rightarrow>
                 if ds \<noteq> [] \<and> list_all is_digit ds then Some (signed neg (nat_of_digits ds))
                 else None)
          else None)"

definition parse_number :: "bool \<Rightarrow> string \<Rightarrow> py_float option" where
  "parse_number neg body =
     (let ip = takeWhile is_digit body;
          r1 = dropWhile is_digit body;
          fp = (if take 1 r1 = ''.'' then takeWhile is_digit (drop 1 r1) else []);
          r2 = (if take 1 r1 = ''.'' then dropWhile is_digit (drop 1 r1) else r1)
      in if ip @ fp = [] then None
         else (case parse_exponent r2 of
                 None \<Rightarrow> None
               | Some ex \<Rightarrow>
                   Some (Decimal (signed neg (nat_of_digits (ip @ fp))) (ex - int (length fp)))))"

definition py_float :: "string \<Rightarrow> py_float option" where
  "py_float s =
     (let t = strip s in
      if \<not> underscores_ok (CHR 0x00) t then None
      else (case split_sign (without_underscores t) of
              (neg, body) \<Rightarrow>
                (case parse_inf_or_nan neg body of
                   Some v \<Rightarrow> Some v
                 | None \<Rightarrow> parse_number neg body)))"

section \<open>Dates\<close>

text \<open>A \<open>datetime.date\<close>: the proleptic Gregorian calendar, years 1 to 9999.\<close>

record date =
  year :: nat
  month :: nat
  day :: nat

definition is_leap :: "nat \<Rightarrow> bool" where
  "is_leap y = (y mod 4 = 0 \<and> (y mod 400 = 0 \<or> y mod 100 \<noteq> 0))"

definition days_in_month :: "nat \<Rightarrow> nat \<Rightarrow> nat" where
  "days_in_month y m =
     (if m = 2 \<and> is_leap y then 29
      else [31, 28, 31, 30, 31, 30, 31, 31, 30, 31, 30, 31] ! (m - 1))"

text \<open>
  The constructor \<open>date(year, month, day)\<close> checks its fields and raises \<open>ValueError\<close>
  (\<open>None\<close>) outside the calendar.
\<close>

definition make_date :: "nat \<Rightarrow> nat \<Rightarrow> nat \<Rightarrow> date option" where
  "make_date y m d =
     (if 1 \<le> y \<and> y \<le> 9999 \<and> 1 \<le> m \<and> m \<le> 12 \<and> 1 \<le> d \<and> d \<le> days_in_month y m
      then Some \<lparr>year = y, month = m, day = d\<rparr>
      else None)"

text \<open>
  \<open>re.match('Forecast Date: (\d{4}-\d{1,2}-\d{1,2})', caption)\<close>, line 50: the text of group 1,
  or \<open>None\<close> when the caption does not start with a match. A month of two digits must be
  followed by the dash, so taking the longest run of at most two digits loses no match.
\<close>

definition strip_prefix :: "string \<Rightarrow> string \<Rightarrow> string option" where
  "strip_prefix p s = (if take (length p) s = p then Some (drop (length p) s) else None)"

definition re_match_caption :: "string \<Rightarrow> string option" where
  "re_match_caption table_caption =
     (case strip_prefix ''Forecast Date: '' table_caption of
        None \<Rightarrow> None
      | Some r \<Rightarrow>
          (let y = take 4 r;
               r1 = drop 4 r;
               m = takeWhile is_digit (take 2 (drop 1 r1));
               r2 = drop (length m) (drop 1 r1);
               d = takeWhile is_digit (take 2 (drop 1 r2))
           in if length y = 4 \<and> list_all is_digit y \<and> take 1 r1 = ''-''
                 \<and> m \<noteq> [] \<and> take 1 r2 = ''-'' \<and> d \<noteq> []
              then Some (y @ ''-'' @ m @ ''-'' @ d)
              else None))"

text \<open>
  \<open>datetime.strptime(text, '%Y-%m-%d').date()\<close>, line 51. The library matches the text against
  \<open>(\d\d\d\d)-(1[0-2]|0[1-9]|[1-9])-(3[0-1]|[1-2]\d|0[1-9]|[1-9]| [1-9])\<close>, refuses text
  left over after the match, and builds the date from the three numbers. The directive
  functions return the text matched and the rest.
\<close>

definition in_range :: "char \<Rightarrow> nat \<Rightarrow> nat \<Rightarrow> bool" where
  "in_range c lo hi = (48 + lo \<le> (of_char c :: nat) \<and> (of_char c :: nat) \<le> 48 + hi)"

definition directive_m :: "string \<Rightarrow> (string \<times> string) option" where
  "directive_m s =
     (case s of
        [] \<Rightarrow> None
      | [a] \<Rightarrow> if in_range a 1 9 then Some ([a], []) else None
      | a # b # r \<Rightarrow>
          if a = CHR ''1'' \<and> in_range b 0 2 then Some ([a, b], r)
          else if a = CHR ''0'' \<and> in_range b 1 9 then Some ([a, b], r)
          else if in_range a 1 9 then Some ([a], b # r)
          else None)"

definition directive_d :: "string \<Rightarrow> (string \<times> string) option" where
  "directive_d s =
     (case s of
        [] \<Rightarrow> None
      | [a] \<Rightarrow> if in_range a 1 9 then Some ([a], []) else None
      | a # b # r \<Rightarrow>
          if a = CHR ''3'' \<and> in_range b 0 1 then Some ([a, b], r)
          else if in_range a 1 2 \<and> in_range b 0 9 then Some ([a, b], r)
          else if a = CHR ''0'' \<and> in_range b 1 9 then Some ([a, b], r)
          else if in_range a 1 9 then Some ([a], b # r)
          else if a = CHR 0x20 \<and> in_range b 1 9 then Some ([a, b], r)
          else None)"

definition strptime_Ymd :: "string \<Rightarrow> date option" where
  "strptime_Ymd s =
     (let y = take 4 s; r1 = drop 4 s in
      if length y = 4 \<and> list_all is_digit y \<and> take 1 r1 = ''-'' then
        (case directive_m (drop 1 r1) of
           None \<Rightarrow> None
         | Some (m, r2) \<Rightarrow>
             if take 1 r2 = ''-'' then
               (case directive_d (drop 1 r2) of
                  None \<Rightarrow> None
                | Some (d, r3) \<Rightarrow>
                    if r3 = [] then
                      make_date (nat_of_digits y) (nat_of_digits m) (nat_of_digits (strip d))
                    else None)
             else None)
      else None)"

section \<open>The record parser\<close>

text \<open>
  What the parser and the handler can raise. The first four are the spec's names for
  the \<open>Exception\<close> of line 48 (no caption), the \<open>Exception\<close> of line 53 (with the caption),
  the \<open>Exception\<close> of line 60 (with the header column found) and the \<open>ValueError\<close> of \<open>int\<close> or
  \<open>float\<close> at line 36, whose message gives the conversion and quotes the text. The others
  are Python's own: \<open>IndexError\<close> of \<open>transposed[0]\<close>, the \<open>ValueError\<close> of unpacking a
  tuple that does not have five elements, \<open>KeyError\<close> of \<open>LOCATIONS[location]\<close>, and a
  failure of the request for a location.
\<close>

datatype conversion = ToInt | ToFloat

datatype error =
    MissingCaptionError
  | DateFormatError string
  | TableShapeError "string list"
  | FieldParseError conversion string
  | IndexError
  | UnpackError
  | KeyError string
  | FetchError string

text \<open>
  A table element, as the parser reads it: the text of its caption, if it has one, and
  the texts of the cells of each of its rows.
\<close>

record table =
  caption :: "string option"
  rows :: "string list list"

definition EXPECTED_DIMENSIONS :: "string list" where
  "EXPECTED_DIMENSIONS =
     [''Time (Hour)'', ''Temperature (oC)'', ''Wind Speed (km/h)'', ''Wind Direction'',
      ''3-Hourly Rainfall (mm)'']"

text \<open>\<open>from_strings\<close> (lines 33-36); the arguments are converted from left to right.\<close>

definition from_strings ::
  "string \<Rightarrow> string \<Rightarrow> string \<Rightarrow> string \<Rightarrow> string \<Rightarrow> error + ThreeHourForecast" where
  "from_strings hour_str temperature_str wind_speed_str wind_direction_str rainfall_str =
     (case py_int hour_str of
        None \<Rightarrow> Inl (FieldParseError ToInt hour_str)
      | Some h \<Rightarrow>
     (case py_float temperature_str of
        None \<Rightarrow> Inl (FieldParseError ToFloat temperature_str)
      | Some t \<Rightarrow>
     (case py_int wind_speed_str of
        None \<Rightarrow> Inl (FieldParseError ToInt wind_speed_str)
      | Some w \<Rightarrow>
     (case py_float rainfall_str of
        None \<Rightarrow> Inl (FieldParseError ToFloat rainfall_str)
      | Some r \<Rightarrow>
          Inr \<lparr>hour = h, temperature = t, wind_speed = w,
               wind_direction = wind_direction_str, rain_fall = r\<rparr>))))"

text \<open>
  \<open>list(zip(*rows))\<close>, line 56: the i-th tuple holds the i-th cell of every row, up to the
  length of the shortest row; no row gives no tuple.
\<close>

function zip_star :: "'a list list \<Rightarrow> 'a list list" where
  "zip_star rs = (if rs = [] \<or> [] \<in> set rs then [] else map hd rs # zip_star (map tl rs))"
  by pat_completeness auto
termination
  by (relation "measure (\<lambda>rs. length (hd rs))") (auto simp: hd_map neq_Nil_conv)

declare zip_star.simps [simp del]

text \<open>The loop of lines 63-65 over \<open>transposed[1:]\<close>.\<close>

fun day_forecast_loop ::
  "string list list \<Rightarrow> ThreeHourForecast list \<Rightarrow> error + ThreeHourForecast list" where
  "day_forecast_loop [] day_forecast = Inr day_forecast"
| "day_forecast_loop (t # ts) day_forecast =
     (case t of
        [hour_str, temperature_str, wind_speed_str, wind_direction_str, rainfall_str] \<Rightarrow>
          (case from_strings hour_str temperature_str wind_speed_str wind_direction_str
                  rainfall_str of
             Inl e \<Rightarrow> Inl e
           | Inr f \<Rightarrow> day_forecast_loop ts (day_forecast @ [f]))
      | _ \<Rightarrow> Inl UnpackError)"

text \<open>\<open>parse_forecast_table\<close> (lines 38-67).\<close>

definition forecast_date_of :: "string \<Rightarrow> error + date" where
  "forecast_date_of table_caption =
     (case re_match_caption table_caption of
        None \<Rightarrow> Inl (DateFormatError table_caption)
      | Some group1 \<Rightarrow>
          (case strptime_Ymd group1 of
             None \<Rightarrow> Inl (DateFormatError table_caption)
           | Some forecast_date \<Rightarrow> Inr forecast_date))"

definition parse_forecast_table :: "table \<Rightarrow> error + date \<times> ThreeHourForecast list" where
  "parse_forecast_table tbl =
     (case caption tbl of
        None \<Rightarrow> Inl MissingCaptionError
      | Some table_caption \<Rightarrow>
     (case forecast_date_of table_caption of
        Inl e \<Rightarrow> Inl e
      | Inr forecast_date \<Rightarrow>
     (case zip_star (rows tbl) of
        [] \<Rightarrow> Inl IndexError
      | header # rest \<Rightarrow>
          if header \<noteq> EXPECTED_DIMENSIONS then Inl (TableShapeError header)
          else (case day_forecast_loop rest [] of
                  Inl e \<Rightarrow> Inl e
                | Inr day_forecast \<Rightarrow> Inr (forecast_date, day_forecast)))))"

section \<open>Formatting\<close>

text \<open>\<open>str\<close> of an integer, as an f-string renders it.\<close>

definition digit_char :: "nat \<Rightarrow> char" where
  "digit_char n = char_of (48 + n)"

function str_nat :: "nat \<Rightarrow> string" where
  "str_nat n = (if n < 10 then [digit_char n] else str_nat (n div 10) @ [digit_char (n mod 10)])"
  by pat_completeness auto
termination
  by (relation "measure id") auto

declare str_nat.simps [simp del]

definition str_int :: "int \<Rightarrow> string" where
  "str_int i = (if i < 0 then ''-'' @ str_nat (nat (- i)) else str_nat (nat i))"

text \<open>\<open>sep.join(xs)\<close>.\<close>

fun join :: "string \<Rightarrow> string list \<Rightarrow> string" where
  "join sep [] = []"
| "join sep [x] = x"
| "join sep (x # y # xs) = x @ sep @ join sep (y # xs)"

text \<open>The method \<open>summary\<close> (lines 78-79).\<close>

definition summary :: "ThreeHourForecast \<Rightarrow> string" where
  "summary self = str_int (hour self) @ '':00 - '' @ str_int (wind_speed self) @ '' km/h''"

text \<open>
  \<open>date.weekday()\<close>, Monday being 0, from the ordinal of the date as the library
  computes it.
\<close>

definition days_before_year :: "nat \<Rightarrow> nat" where
  "days_before_year y =
     (let p = y - 1 in p * 365 + p div 4 + p div 400 - p div 100)"

definition days_before_month :: "nat \<Rightarrow> nat \<Rightarrow> nat" where
  "days_before_month y m =
     [0, 31, 59, 90, 120, 151, 181, 212, 243, 273, 304, 334] ! (m - 1)
       + (if m > 2 \<and> is_leap y then 1 else 0)"

definition toordinal :: "date \<Rightarrow> nat" where
  "toordinal dt = days_before_year (year dt) + days_before_month (year dt) (month dt) + day dt"

definition weekday :: "date \<Rightarrow> nat" where
  "weekday dt = (toordinal dt + 6) mod 7"

text \<open>
  \<open>date.strftime(format)\<close> with the directives the program uses: \<open>%d\<close> and \<open>%m\<close> are two
  digits, \<open>%a\<close> is the abbreviated English name of the weekday, and \<open>%Y\<close> is the year in
  decimal (the C library of the platform does not pad it).
\<close>

definition pad2 :: "nat \<Rightarrow> string" where
  "pad2 n = (if n < 10 then ''0'' @ str_nat n else str_nat n)"

definition day_abbr :: "nat \<Rightarrow> string" where
  "day_abbr w = [''Mon'', ''Tue'', ''Wed'', ''Thu'', ''Fri'', ''Sat'', ''Sun''] ! w"

definition directive :: "char \<Rightarrow> date \<Rightarrow> string" where
  "directive x dt =
     (if x = CHR ''d'' then pad2 (day dt)
      else if x = CHR ''m'' then pad2 (month dt)
      else if x = CHR ''Y'' then str_nat (year dt)
      else if x = CHR ''a'' then day_abbr (weekday dt)
      else [CHR ''%'', x])"

fun strftime :: "string \<Rightarrow> date \<Rightarrow> string" where
  "strftime [] dt = []"
| "strftime [c] dt = [c]"
| "strftime (c # x # fmt) dt =
     (if c = CHR ''%'' then directive x dt @ strftime fmt dt else c # strftime (x # fmt) dt)"

section \<open>Grouping\<close>

text \<open>
  A \<open>dict\<close> is an association list without repeated keys, in insertion order:
  \<open>d[k] = v\<close> (\<open>AList.update k v d\<close>) replaces the value of a key where it stands and puts a
  new key last; \<open>d[k]\<close> is \<open>map_of d k\<close>.
\<close>

type_synonym forecasts = "ThreeHourForecast list"
type_synonym finding = "date \<times> string \<times> forecasts"
type_synonym date_location_groups = "(date \<times> (string \<times> forecasts) list) list"

text \<open>\<open>d.setdefault(k, default)\<close>: the value returned and the dictionary afterwards.\<close>

definition setdefault :: "('k \<times> 'v) list \<Rightarrow> 'k \<Rightarrow> 'v \<Rightarrow> 'v \<times> ('k \<times> 'v) list" where
  "setdefault d k dflt =
     (case map_of d k of
        Some v \<Rightarrow> (v, d)
      | None \<Rightarrow> (dflt, AList.update k dflt d))"

text \<open>
  \<open>group_by_date_location\<close> (lines 85-97). \<open>date_data\<close> is the dictionary stored in
  \<open>results\<close> under the date, so the assignment of line 95 changes \<open>results\<close>.
\<close>

fun group_loop :: "finding list \<Rightarrow> date_location_groups \<Rightarrow> date_location_groups" where
  "group_loop [] results = results"
| "group_loop ((forecast_date, location, fs) # date_locations) results =
     (case setdefault results forecast_date [] of
        (date_data, results1) \<Rightarrow>
          group_loop date_locations
            (AList.update forecast_date (AList.update location fs date_data) results1))"

definition group_by_date_location :: "finding list \<Rightarrow> date_location_groups" where
  "group_by_date_location date_locations = group_loop date_locations []"

text \<open>\<open>results[forecast_date][location]\<close>, \<open>None\<close> when either key is missing.\<close>

definition lookup_records :: "date_location_groups \<Rightarrow> date \<Rightarrow> string \<Rightarrow> forecasts option" where
  "lookup_records results forecast_date location =
     (case map_of results forecast_date of
        None \<Rightarrow> None
      | Some date_data \<Rightarrow> map_of date_data location)"

section \<open>The alert\<close>

definition LOCATIONS :: "(string \<times> string) list" where
  "LOCATIONS = [(''TMTWSC'', ''Tai Mei Tuk''), (''S'', ''Stanley''), (''TM'', ''Tap Mun'')]"

text \<open>\<open>LOCATIONS[location]\<close>, which raises \<open>KeyError\<close> for a code that is not a key.\<close>

definition location_name :: "string \<Rightarrow> error + string" where
  "location_name location =
     (case map_of LOCATIONS location of
        None \<Rightarrow> Inl (KeyError location)
      | Some name \<Rightarrow> Inr name)"

text \<open>
  \<open>generate_alert\<close> (lines 100-120). The comprehension of line 108 over the locations of
  one date, the comprehension of lines 108-109 over the dates, and the two loops of
  lines 113-118, which append to \<open>message_body\<close>.
\<close>

fun location_names :: "(string \<times> forecasts) list \<Rightarrow> error + string list" where
  "location_names [] = Inr []"
| "location_names ((location, fs) # locations) =
     (case location_name location of
        Inl e \<Rightarrow> Inl e
      | Inr name \<Rightarrow>
          (case location_names locations of
             Inl e \<Rightarrow> Inl e
           | Inr names \<Rightarrow> Inr (name # names)))"

fun date_summary :: "date_location_groups \<Rightarrow> error + string list" where
  "date_summary [] = Inr []"
| "date_summary ((forecast_date, locations) # groups) =
     (case location_names locations of
        Inl e \<Rightarrow> Inl e
      | Inr names \<Rightarrow>
          (case date_summary groups of
             Inl e \<Rightarrow> Inl e
           | Inr rest \<Rightarrow>
               Inr ((strftime ''%d/%m'' forecast_date @ '' @'' @ join '', '' names) # rest)))"

fun body_locations :: "(string \<times> forecasts) list \<Rightarrow> string \<Rightarrow> error + string" where
  "body_locations [] message_body = Inr message_body"
| "body_locations ((location, fs) # locations) message_body =
     (case location_name location of
        Inl e \<Rightarrow> Inl e
      | Inr name \<Rightarrow>
          body_locations locations
            (message_body @ (name @ [CHR 0x0A])
               @ join [CHR 0x0A] (map (\<lambda>forecast. CHR 0x09 # summary forecast) fs)
               @ [CHR 0x0A]))"

fun body_dates :: "date_location_groups \<Rightarrow> string \<Rightarrow> error + string" where
  "body_dates [] message_body = Inr message_body"
| "body_dates ((forecast_date, locations) # groups) message_body =
     (case body_locations locations
             (message_body @ (strftime ''%Y-%m-%d (%a)'' forecast_date @ [CHR 0x0A])) of
        Inl e \<Rightarrow> Inl e
      | Inr message_body' \<Rightarrow> body_dates groups message_body')"

definition generate_alert :: "finding list \<Rightarrow> error + string \<times> string" where
  "generate_alert date_locations =
     (let date_location_groups = group_by_date_location date_locations in
      case date_summary date_location_groups of
        Inl e \<Rightarrow> Inl e
      | Inr summaries \<Rightarrow>
          (let message_subject = ''Strong wind forecasted: '' @ join ''; '' summaries in
           case body_dates date_location_groups [] of
             Inl e \<Rightarrow> Inl e
           | Inr message_body \<Rightarrow> Inr (message_subject, message_body)))"

section \<open>The alert as the specification words it\<close>

text \<open>
  The format of the specification, written out for comparison with \<open>generate_alert\<close>:
  numbers of two and four digits, the display name of a location code, the order of first
  appearance, the subject built from one segment per date, and the body built from one
  block per date, made of one block per location, made of one line per record.
\<close>

definition two_digits :: "nat \<Rightarrow> string" where
  "two_digits n = [digit_char (n div 10), digit_char (n mod 10)]"

definition four_digits :: "nat \<Rightarrow> string" where
  "four_digits n =
     [digit_char (n div 1000), digit_char (n div 100 mod 10), digit_char (n div 10 mod 10),
      digit_char (n mod 10)]"

definition display_name :: "string \<Rightarrow> string" where
  "display_name location = (case map_of LOCATIONS location of None \<Rightarrow> [] | Some name \<Rightarrow> name)"

fun first_seen :: "'a list \<Rightarrow> 'a list" where
  "first_seen [] = []"
| "first_seen (x # xs) = x # removeAll x (first_seen xs)"

definition spec_date_DD_MM :: "date \<Rightarrow> string" where
  "spec_date_DD_MM dt = two_digits (day dt) @ ''/'' @ two_digits (month dt)"

definition spec_date_YYYY_MM_DD_Ddd :: "date \<Rightarrow> string" where
  "spec_date_YYYY_MM_DD_Ddd dt =
     four_digits (year dt) @ ''-'' @ two_digits (month dt) @ ''-'' @ two_digits (day dt)
       @ '' ('' @ day_abbr (weekday dt) @ '')''"

definition spec_segment :: "date \<times> (string \<times> forecasts) list \<Rightarrow> string" where
  "spec_segment g =
     spec_date_DD_MM (fst g) @ '' @'' @ join '', '' (map (\<lambda>lf. display_name (fst lf)) (snd g))"

definition spec_subject :: "date_location_groups \<Rightarrow> string" where
  "spec_subject groups = ''Strong wind forecasted: '' @ join ''; '' (map spec_segment groups)"

definition spec_record_line :: "ThreeHourForecast \<Rightarrow> string" where
  "spec_record_line f =
     [CHR 0x09] @ str_int (hour f) @ '':00 - '' @ str_int (wind_speed f) @ '' km/h'' @ [CHR 0x0A]"

definition spec_location_block :: "string \<times> forecasts \<Rightarrow> string" where
  "spec_location_block lf =
     display_name (fst lf) @ [CHR 0x0A] @ concat (map spec_record_line (snd lf))"

definition spec_date_block :: "date \<times> (string \<times> forecasts) list \<Rightarrow> string" where
  "spec_date_block g =
     spec_date_YYYY_MM_DD_Ddd (fst g) @ [CHR 0x0A] @ concat (map spec_location_block (snd g))"

definition spec_body :: "date_location_groups \<Rightarrow> string" where
  "spec_body groups = concat (map spec_date_block groups)"

section \<open>The handler\<close>

text \<open>
  The two collaborators of \<open>lambda_handler\<close> (lines 138-170): the request for the page of a
  location, which gives the table elements of the page or fails, and the notifier behind
  \<open>send_alert\<close>, which may fail. A run ends normally (\<open>None\<close>) or with the exception that
  left the handler, and has made the calls of the notifier listed in \<open>sent\<close>.
\<close>

type_synonym fetch = "string \<Rightarrow> error + table list"
type_synonym publish = "string \<times> string \<Rightarrow> error option"

record run =
  raised :: "error option"
  sent :: "(string \<times> string) list"

text \<open>The loop of lines 155-161 over \<open>tables[1:]\<close> of one location.\<close>

fun tables_loop :: "string \<Rightarrow> table list \<Rightarrow> finding list \<Rightarrow> error + finding list" where
  "tables_loop location [] strong_wind_date_locations = Inr strong_wind_date_locations"
| "tables_loop location (tbl # tables) strong_wind_date_locations =
     (case parse_forecast_table tbl of
        Inl e \<Rightarrow> Inl e
      | Inr (forecast_date, day_forecast) \<Rightarrow>
          (let strong_wind_hours = filter is_strong day_forecast in
           tables_loop location tables
             (if strong_wind_hours \<noteq> []
              then strong_wind_date_locations @ [(forecast_date, location, strong_wind_hours)]
              else strong_wind_date_locations)))"

text \<open>The loop of lines 150-161 over the locations.\<close>

fun locations_loop :: "fetch \<Rightarrow> string list \<Rightarrow> finding list \<Rightarrow> error + finding list" where
  "locations_loop fetch [] strong_wind_date_locations = Inr strong_wind_date_locations"
| "locations_loop fetch (location # locations) strong_wind_date_locations =
     (case fetch location of
        Inl e \<Rightarrow> Inl e
      | Inr tables \<Rightarrow>
          (case tables_loop location (drop 1 tables) strong_wind_date_locations of
             Inl e \<Rightarrow> Inl e
           | Inr found \<Rightarrow> locations_loop fetch locations found))"

definition lambda_handler :: "fetch \<Rightarrow> publish \<Rightarrow> run" where
  "lambda_handler fetch publish =
     (case locations_loop fetch (map fst LOCATIONS) [] of
        Inl e \<Rightarrow> \<lparr>raised = Some e, sent = []\<rparr>
      | Inr strong_wind_date_locations \<Rightarrow>
          if strong_wind_date_locations \<noteq> [] then
            (case generate_alert strong_wind_date_locations of
               Inl e \<Rightarrow> \<lparr>raised = Some e, sent = []\<rparr>
             | Inr (message_subject, message_body) \<Rightarrow>
                 \<lparr>raised = publish (message_subject, message_body),
                  sent = [(message_subject, message_body)]\<rparr>)
          else \<lparr>raised = None, sent = []\<rparr>)"

section \<open>Properties of the classifier\<close>

text \<open>
  C1. A forecast is strong exactly when its wind speed is at least 20 and its hour lies in
  9..16, both bounds included. In particular (hour 9, speed 20) and (hour 16, speed 20) are
  strong, and (hour 8, speed 20), (hour 9, speed 19) and (hour 17, speed 100) are not,
  whatever the other fields hold. The predicate is a total function of the record alone.
\<close>

theorem is_strong_iff:
  "is_strong f = (wind_speed f \<ge> 20 \<and> 9 \<le> hour f \<and> hour f \<le> 16)
   \<and> is_strong (f\<lparr>hour := 9, wind_speed := 20\<rparr>)
   \<and> is_strong (f\<lparr>hour := 16, wind_speed := 20\<rparr>)
   \<and> \<not> is_strong (f\<lparr>hour := 8, wind_speed := 20\<rparr>)
   \<and> \<not> is_strong (f\<lparr>hour := 9, wind_speed := 19\<rparr>)
   \<and> \<not> is_strong (f\<lparr>hour := 17, wind_speed := 100\<rparr>)"
  by (simp add: is_strong_def HOUR_RANGE_def MIN_WIND_SPEED_def)

section \<open>Properties of the record parser\<close>

subsection \<open>Transposition and the conversion loop\<close>

lemma zip_star_Nil: "zip_star [] = []"
  by (simp add: zip_star.simps)

lemma zip_star_rows:
  "rs \<noteq> [] \<Longrightarrow> [] \<notin> set rs \<Longrightarrow> zip_star rs = map hd rs # zip_star (map tl rs)"
  by (subst zip_star.simps) simp

lemma zip_star_length: "t \<in> set (zip_star rs) \<Longrightarrow> length t = length rs"
proof (induction rs arbitrary: t rule: zip_star.induct)
  case (1 rs)
  show ?case
  proof (cases "rs = [] \<or> [] \<in> set rs")
    case True
    with "1.prems" show ?thesis by (simp add: zip_star.simps)
  next
    case False
    with "1.prems" have "t = map hd rs \<or> t \<in> set (zip_star (map tl rs))"
      by (subst (asm) zip_star.simps) auto
    with "1.IH" False show ?thesis by auto
  qed
qed

lemma from_strings_Inr:
  "from_strings h te w wd r = Inr f \<longleftrightarrow>
     py_int h = Some (hour f) \<and> py_float te = Some (temperature f) \<and>
     py_int w = Some (wind_speed f) \<and> wind_direction f = wd \<and>
     py_float r = Some (rain_fall f)"
  by (cases f) (auto simp: from_strings_def split: option.splits)

lemma from_strings_Inl:
  "from_strings h te w wd r = Inl e \<Longrightarrow>
     (\<exists>s \<in> {h, w}. e = FieldParseError ToInt s \<and> py_int s = None) \<or>
     (\<exists>s \<in> {te, r}. e = FieldParseError ToFloat s \<and> py_float s = None)"
  by (auto simp: from_strings_def split: option.splits)

lemma length5: "length t = 5 \<Longrightarrow> \<exists>a b c d e. t = [a, b, c, d, e]"
  by (auto simp: length_Suc_conv eval_nat_numeral)

lemma loop_bad:
  "t \<in> set ts \<Longrightarrow> \<forall>u \<in> set ts. length u = 5 \<Longrightarrow>
   py_int (t ! 0) = None \<or> py_float (t ! 1) = None \<or> py_int (t ! 2) = None \<or> py_float (t ! 4) = None \<Longrightarrow>
   \<exists>k s. day_forecast_loop ts acc = Inl (FieldParseError k s) \<and> s \<in> set (concat ts) \<and>
         (case k of ToInt \<Rightarrow> py_int s = None | ToFloat \<Rightarrow> py_float s = None)"
proof (induction ts arbitrary: acc)
  case Nil
  then show ?case by simp
next
  case (Cons u ts)
  from Cons.prems(2) obtain h te w wd r where u: "u = [h, te, w, wd, r]"
    using length5 [of u] by auto
  show ?case
  proof (cases "from_strings h te w wd r")
    case (Inl e)
    from from_strings_Inl [OF Inl] show ?thesis
      using u Inl by auto
  next
    case (Inr f)
    then have ok: "py_int h \<noteq> None \<and> py_float te \<noteq> None \<and> py_int w \<noteq> None \<and> py_float r \<noteq> None"
      by (auto simp: from_strings_Inr)
    with Cons.prems(1,3) u have "t \<in> set ts" by auto
    from Cons.IH [OF this _ Cons.prems(3), of "acc @ [f]"] Cons.prems(2)
    obtain k s where "day_forecast_loop ts (acc @ [f]) = Inl (FieldParseError k s)"
      "s \<in> set (concat ts)"
      "(case k of ToInt \<Rightarrow> py_int s = None | ToFloat \<Rightarrow> py_float s = None)"
      by auto
    with u Inr show ?thesis by auto
  qed
qed

lemma loop_Inl:
  "\<forall>u \<in> set ts. length u = 5 \<Longrightarrow> day_forecast_loop ts acc = Inl e \<Longrightarrow>
   \<exists>k s. e = FieldParseError k s \<and> s \<in> set (concat ts) \<and>
         (case k of ToInt \<Rightarrow> py_int s = None | ToFloat \<Rightarrow> py_float s = None)"
proof (induction ts arbitrary: acc)
  case Nil
  then show ?case by simp
next
  case (Cons u ts)
  from Cons.prems(1) obtain h te w wd r where u: "u = [h, te, w, wd, r]"
    using length5 [of u] by auto
  show ?case
  proof (cases "from_strings h te w wd r")
    case (Inl e')
    from from_strings_Inl [OF Inl] show ?thesis
      using u Inl Cons.prems(2) by auto
  next
    case (Inr f)
    with u Cons.prems(2) have "day_forecast_loop ts (acc @ [f]) = Inl e" by simp
    from Cons.IH [OF _ this] Cons.prems(1) show ?thesis by auto
  qed
qed

lemma loop_Inr:
  "\<forall>u \<in> set ts. length u = 5 \<Longrightarrow> day_forecast_loop ts acc = Inr fs \<Longrightarrow>
   \<exists>gs. fs = acc @ gs \<and>
     list_all2 (\<lambda>t f. py_int (t ! 0) = Some (hour f) \<and> py_float (t ! 1) = Some (temperature f) \<and>
                      py_int (t ! 2) = Some (wind_speed f) \<and> wind_direction f = t ! 3 \<and>
                      py_float (t ! 4) = Some (rain_fall f)) ts gs"
proof (induction ts arbitrary: acc)
  case Nil
  then show ?case by simp
next
  case (Cons u ts)
  from Cons.prems(1) obtain h te w wd r where u: "u = [h, te, w, wd, r]"
    using length5 [of u] by auto
  show ?case
  proof (cases "from_strings h te w wd r")
    case (Inl e')
    with u Cons.prems(2) show ?thesis by simp
  next
    case (Inr f)
    with u Cons.prems(2) have "day_forecast_loop ts (acc @ [f]) = Inr fs" by simp
    from Cons.IH [OF _ this] Cons.prems(1)
    obtain gs where "fs = (acc @ [f]) @ gs" and
      "list_all2 (\<lambda>t f. py_int (t ! 0) = Some (hour f) \<and> py_float (t ! 1) = Some (temperature f) \<and>
                      py_int (t ! 2) = Some (wind_speed f) \<and> wind_direction f = t ! 3 \<and>
                      py_float (t ! 4) = Some (rain_fall f)) ts gs"
      by auto
    with u Inr show ?thesis
      by (auto simp: from_strings_Inr intro!: exI [of _ "f # gs"])
  qed
qed


lemma parse_after_header:
  assumes "caption tbl = Some c" and "forecast_date_of c = Inr d"
    and "zip_star (rows tbl) = EXPECTED_DIMENSIONS # rest"
  shows "parse_forecast_table tbl =
           (case day_forecast_loop rest [] of Inl e \<Rightarrow> Inl e | Inr fs \<Rightarrow> Inr (d, fs))"
    and "\<forall>u \<in> set rest. length u = 5"
proof -
  show "parse_forecast_table tbl =
           (case day_forecast_loop rest [] of Inl e \<Rightarrow> Inl e | Inr fs \<Rightarrow> Inr (d, fs))"
    using assms by (simp add: parse_forecast_table_def)
  have "length EXPECTED_DIMENSIONS = 5" by (simp add: EXPECTED_DIMENSIONS_def)
  moreover have "\<forall>u \<in> set (zip_star (rows tbl)). length u = length (rows tbl)"
    using zip_star_length by blast
  ultimately show "\<forall>u \<in> set rest. length u = 5"
    using assms(3) by simp
qed

subsection \<open>Header validation\<close>

text \<open>
  C2 (as amended). For a table with a well-formed caption whose rows are not empty, the header
  column is the list of the first cells of the rows. The parser compares it with the five
  strings of \<open>EXPECTED_DIMENSIONS\<close>, the second of which is \<open>Temperature (oC)\<close> with the
  letter o. Any other header column (reordered, shorter, longer, or with other text) fails
  with \<open>TableShapeError\<close> carrying the column found; a header column equal to the five
  strings passes the check: the parse then succeeds or fails in a field conversion.
\<close>

theorem header_validation:
  assumes "caption tbl = Some c" and "forecast_date_of c = Inr d"
    and "rows tbl \<noteq> []" and "[] \<notin> set (rows tbl)"
  shows "EXPECTED_DIMENSIONS =
           [''Time (Hour)'', ''Temperature (oC)'', ''Wind Speed (km/h)'', ''Wind Direction'',
            ''3-Hourly Rainfall (mm)'']
         \<and> (if map hd (rows tbl) = EXPECTED_DIMENSIONS
            then (\<exists>fs. parse_forecast_table tbl = Inr (d, fs))
               \<or> (\<exists>k s. parse_forecast_table tbl = Inl (FieldParseError k s))
            else parse_forecast_table tbl = Inl (TableShapeError (map hd (rows tbl))))"
proof -
  have z: "zip_star (rows tbl) = map hd (rows tbl) # zip_star (map tl (rows tbl))"
    using assms(3,4) by (rule zip_star_rows)
  show ?thesis
  proof (cases "map hd (rows tbl) = EXPECTED_DIMENSIONS")
    case True
    with z have z': "zip_star (rows tbl) = EXPECTED_DIMENSIONS # zip_star (map tl (rows tbl))"
      by simp
    note p = parse_after_header [OF assms(1,2) z']
    show ?thesis
    proof (cases "day_forecast_loop (zip_star (map tl (rows tbl))) []")
      case (Inl e)
      from loop_Inl [OF p(2) Inl] p(1) Inl True show ?thesis
        by (auto simp: EXPECTED_DIMENSIONS_def)
    next
      case (Inr fs)
      with p(1) True show ?thesis by (simp add: EXPECTED_DIMENSIONS_def)
    qed
  next
    case False
    with z assms(1,2) show ?thesis
      by (simp add: parse_forecast_table_def EXPECTED_DIMENSIONS_def)
  qed
qed

theorem header_validation_witness:
  "caption \<lparr>caption = Some ''Forecast Date: 2024-3-5'',
            rows = [[''Time (Hour)'', ''9''], [''Wind Speed (km/h)'', ''25''],
                    [''Temperature (oC)'', ''21''], [''Wind Direction'', ''NE''],
                    [''3-Hourly Rainfall (mm)'', ''0'']]\<rparr> = Some ''Forecast Date: 2024-3-5''
   \<and> forecast_date_of ''Forecast Date: 2024-3-5'' = Inr \<lparr>year = 2024, month = 3, day = 5\<rparr>
   \<and> parse_forecast_table
        \<lparr>caption = Some ''Forecast Date: 2024-3-5'',
         rows = [[''Time (Hour)'', ''9''], [''Wind Speed (km/h)'', ''25''],
                 [''Temperature (oC)'', ''21''], [''Wind Direction'', ''NE''],
                 [''3-Hourly Rainfall (mm)'', ''0'']]\<rparr>
       = Inl (TableShapeError [''Time (Hour)'', ''Wind Speed (km/h)'', ''Temperature (oC)'',
                               ''Wind Direction'', ''3-Hourly Rainfall (mm)''])"
proof -
  let ?t = "\<lparr>caption = Some ''Forecast Date: 2024-3-5'',
            rows = [[''Time (Hour)'', ''9''], [''Wind Speed (km/h)'', ''25''],
                    [''Temperature (oC)'', ''21''], [''Wind Direction'', ''NE''],
                    [''3-Hourly Rainfall (mm)'', ''0'']]\<rparr>"
  have c: "caption ?t = Some ''Forecast Date: 2024-3-5''" by simp
  have d: "forecast_date_of ''Forecast Date: 2024-3-5'' = Inr \<lparr>year = 2024, month = 3, day = 5\<rparr>"
    by code_simp
  have r: "rows ?t \<noteq> []" "[] \<notin> set (rows ?t)" by simp_all
  have ne: "map hd (rows ?t) \<noteq> EXPECTED_DIMENSIONS"
    by (simp add: EXPECTED_DIMENSIONS_def)
  from header_validation [OF c d r] ne
  have "parse_forecast_table ?t = Inl (TableShapeError (map hd (rows ?t)))"
    by presburger
  with c d show ?thesis by simp
qed

text \<open>
  C2 as stated names \<open>Temperature (\<degree>C)\<close>, with the degree sign U+00B0, as the second
  expected header. A table whose header column is exactly that sequence is rejected with
  \<open>TableShapeError\<close>, and a table whose header column differs from it in the second string
  (the letter o) is parsed.
\<close>

theorem spec_header_rejected:
  "parse_forecast_table
     \<lparr>caption = Some ''Forecast Date: 2024-3-5'',
      rows = [[''Time (Hour)'', ''9''],
              [''Temperature ('' @ [CHR 0xB0] @ ''C)'', ''21''],
              [''Wind Speed (km/h)'', ''25''],
              [''Wind Direction'', ''NE''],
              [''3-Hourly Rainfall (mm)'', ''0'']]\<rparr>
   = Inl (TableShapeError [''Time (Hour)'', ''Temperature ('' @ [CHR 0xB0] @ ''C)'',
                           ''Wind Speed (km/h)'', ''Wind Direction'', ''3-Hourly Rainfall (mm)''])
   \<and> parse_forecast_table
     \<lparr>caption = Some ''Forecast Date: 2024-3-5'',
      rows = [[''Time (Hour)'', ''9''],
              [''Temperature (oC)'', ''21''],
              [''Wind Speed (km/h)'', ''25''],
              [''Wind Direction'', ''NE''],
              [''3-Hourly Rainfall (mm)'', ''0'']]\<rparr>
   = Inr (\<lparr>year = 2024, month = 3, day = 5\<rparr>,
          [\<lparr>hour = 9, temperature = Decimal 21 0, wind_speed = 25, wind_direction = ''NE'',
            rain_fall = Decimal 0 0\<rparr>])"
  by code_simp

subsection \<open>Field conversion\<close>

lemma from_strings_first_bad:
  "py_int h = None \<or> py_float te = None \<or> py_int w = None \<or> py_float r = None \<Longrightarrow>
   from_strings h te w wd r =
     Inl (if py_int h = None then FieldParseError ToInt h
          else if py_float te = None then FieldParseError ToFloat te
          else if py_int w = None then FieldParseError ToInt w
          else FieldParseError ToFloat r)"
  by (auto simp: from_strings_def split: option.splits)

lemma from_strings_good:
  "py_int h \<noteq> None \<Longrightarrow> py_float te \<noteq> None \<Longrightarrow> py_int w \<noteq> None \<Longrightarrow> py_float r \<noteq> None \<Longrightarrow>
   \<exists>f. from_strings h te w wd r = Inr f"
  by (auto simp: from_strings_def split: option.splits)

lemma loop_first_bad:
  assumes "\<forall>u \<in> set (pre @ t # post). length u = 5"
    and "list_all (\<lambda>u. py_int (u ! 0) \<noteq> None \<and> py_float (u ! 1) \<noteq> None
                       \<and> py_int (u ! 2) \<noteq> None \<and> py_float (u ! 4) \<noteq> None) pre"
    and "py_int (t ! 0) = None \<or> py_float (t ! 1) = None \<or> py_int (t ! 2) = None
         \<or> py_float (t ! 4) = None"
  shows "day_forecast_loop (pre @ t # post) acc =
     Inl (if py_int (t ! 0) = None then FieldParseError ToInt (t ! 0)
          else if py_float (t ! 1) = None then FieldParseError ToFloat (t ! 1)
          else if py_int (t ! 2) = None then FieldParseError ToInt (t ! 2)
          else FieldParseError ToFloat (t ! 4))"
  using assms
proof (induction pre arbitrary: acc)
  case Nil
  from Nil.prems(1) obtain h te w wd r where t: "t = [h, te, w, wd, r]"
    using length5 [of t] by auto
  from Nil.prems(3) have "py_int h = None \<or> py_float te = None \<or> py_int w = None \<or> py_float r = None"
    unfolding t by simp
  from from_strings_first_bad [OF this, of wd] show ?case
    unfolding t by simp
next
  case (Cons u pre)
  from Cons.prems(1) obtain h te w wd r where u: "u = [h, te, w, wd, r]"
    using length5 [of u] by auto
  from Cons.prems(2) have "py_int h \<noteq> None" "py_float te \<noteq> None" "py_int w \<noteq> None"
    "py_float r \<noteq> None"
    unfolding u by simp_all
  from from_strings_good [OF this, of wd] obtain f where f: "from_strings h te w wd r = Inr f"
    by blast
  from Cons.prems have "day_forecast_loop (pre @ t # post) (acc @ [f]) =
     Inl (if py_int (t ! 0) = None then FieldParseError ToInt (t ! 0)
          else if py_float (t ! 1) = None then FieldParseError ToFloat (t ! 1)
          else if py_int (t ! 2) = None then FieldParseError ToInt (t ! 2)
          else FieldParseError ToFloat (t ! 4))"
    by (intro Cons.IH) simp_all
  with u f show ?case by simp
qed

text \<open>
  C7 (as amended). For a table that passes caption and header validation, let \<open>t\<close> be the first
  per-hour tuple with a field whose conversion fails (\<open>int\<close> on the hour or the wind
  speed, \<open>float\<close> on the temperature or the rainfall), every tuple before it converting
  in all four fields. The parse of the whole table fails with \<open>FieldParseError\<close>, and no
  record is returned. The error gives the conversion and the text of the first field of
  \<open>t\<close>, in the order hour, temperature, wind speed, rainfall, whose conversion fails; it
  does not give the name of the field.
\<close>

theorem field_conversion_failure_fatal:
  assumes "caption tbl = Some c" and "forecast_date_of c = Inr d"
    and "zip_star (rows tbl) = EXPECTED_DIMENSIONS # (pre @ t # post)"
    and "list_all (\<lambda>u. py_int (u ! 0) \<noteq> None \<and> py_float (u ! 1) \<noteq> None
                       \<and> py_int (u ! 2) \<noteq> None \<and> py_float (u ! 4) \<noteq> None) pre"
    and "py_int (t ! 0) = None \<or> py_float (t ! 1) = None \<or> py_int (t ! 2) = None
         \<or> py_float (t ! 4) = None"
  shows "parse_forecast_table tbl =
     Inl (if py_int (t ! 0) = None then FieldParseError ToInt (t ! 0)
          else if py_float (t ! 1) = None then FieldParseError ToFloat (t ! 1)
          else if py_int (t ! 2) = None then FieldParseError ToInt (t ! 2)
          else FieldParseError ToFloat (t ! 4))"
proof -
  note p = parse_after_header [OF assms(1,2,3)]
  from loop_first_bad [OF p(2) assms(4,5), of "[]"] p(1) show ?thesis
    by simp
qed

theorem field_conversion_failure_fatal_witness:
  "zip_star [[''Time (Hour)'', ''8'', ''9''], [''Temperature (oC)'', ''20'', ''21.5''],
             [''Wind Speed (km/h)'', ''15'', ''strong''], [''Wind Direction'', ''E'', ''NE''],
             [''3-Hourly Rainfall (mm)'', ''0'', ''0.5'']]
     = EXPECTED_DIMENSIONS # ([[''8'', ''20'', ''15'', ''E'', ''0'']]
                               @ [''9'', ''21.5'', ''strong'', ''NE'', ''0.5''] # [])
   \<and> py_int ''strong'' = None
   \<and> parse_forecast_table
        \<lparr>caption = Some ''Forecast Date: 2024-3-5'',
         rows = [[''Time (Hour)'', ''8'', ''9''], [''Temperature (oC)'', ''20'', ''21.5''],
                 [''Wind Speed (km/h)'', ''15'', ''strong''], [''Wind Direction'', ''E'', ''NE''],
                 [''3-Hourly Rainfall (mm)'', ''0'', ''0.5'']]\<rparr>
       = Inl (FieldParseError ToInt ''strong'')"
proof -
  let ?rows = "[[''Time (Hour)'', ''8'', ''9''], [''Temperature (oC)'', ''20'', ''21.5''],
                [''Wind Speed (km/h)'', ''15'', ''strong''], [''Wind Direction'', ''E'', ''NE''],
                [''3-Hourly Rainfall (mm)'', ''0'', ''0.5'']]"
  let ?t = "\<lparr>caption = Some ''Forecast Date: 2024-3-5'', rows = ?rows\<rparr>"
  let ?good = "[''8'', ''20'', ''15'', ''E'', ''0'']"
  let ?bad = "[''9'', ''21.5'', ''strong'', ''NE'', ''0.5'']"
  have c: "caption ?t = Some ''Forecast Date: 2024-3-5''" by simp
  have d: "forecast_date_of ''Forecast Date: 2024-3-5'' = Inr \<lparr>year = 2024, month = 3, day = 5\<rparr>"
    by code_simp
  have z: "zip_star ?rows = EXPECTED_DIMENSIONS # ([?good] @ ?bad # [])" by code_simp
  then have z': "zip_star (rows ?t) = EXPECTED_DIMENSIONS # ([?good] @ ?bad # [])" by simp
  have g: "py_int ''8'' \<noteq> None" "py_float ''20'' \<noteq> None" "py_int ''15'' \<noteq> None"
    "py_float ''0'' \<noteq> None" "py_int ''9'' \<noteq> None" "py_float ''21.5'' \<noteq> None"
    by code_simp+
  have n: "py_int ''strong'' = None" by code_simp
  from g have pre: "list_all (\<lambda>u. py_int (u ! 0) \<noteq> None \<and> py_float (u ! 1) \<noteq> None
                       \<and> py_int (u ! 2) \<noteq> None \<and> py_float (u ! 4) \<noteq> None) [?good]"
    by simp
  from n have b: "py_int (?bad ! 0) = None \<or> py_float (?bad ! 1) = None \<or> py_int (?bad ! 2) = None
      \<or> py_float (?bad ! 4) = None" by simp
  from field_conversion_failure_fatal [OF c d z' pre b] g n
  have "parse_forecast_table ?t = Inl (FieldParseError ToInt ''strong'')" by simp
  with z n show ?thesis by (intro conjI)
qed

text \<open>
  C7 as stated fails in that the error does not name the field: a table whose hour cell
  reads \<open>x\<close> and a table whose wind speed cell reads \<open>x\<close> fail with the same error.
\<close>

theorem error_does_not_name_field:
  "parse_forecast_table
     \<lparr>caption = Some ''Forecast Date: 2024-3-5'',
      rows = [[''Time (Hour)'', ''x''], [''Temperature (oC)'', ''21.5''],
              [''Wind Speed (km/h)'', ''25''], [''Wind Direction'', ''NE''],
              [''3-Hourly Rainfall (mm)'', ''0.5'']]\<rparr>
     = Inl (FieldParseError ToInt ''x'')
   \<and> parse_forecast_table
     \<lparr>caption = Some ''Forecast Date: 2024-3-5'',
      rows = [[''Time (Hour)'', ''9''], [''Temperature (oC)'', ''21.5''],
              [''Wind Speed (km/h)'', ''x''], [''Wind Direction'', ''NE''],
              [''3-Hourly Rainfall (mm)'', ''0.5'']]\<rparr>
     = Inl (FieldParseError ToInt ''x'')"
  by code_simp

text \<open>
  C9 (as amended). Every record of a successful parse holds, field by field, what the conversions
  make of the cells of its tuple: \<open>hour\<close> and \<open>wind_speed\<close> are the integers \<open>int\<close> reads,
  \<open>temperature\<close> and \<open>rain_fall\<close> the numbers \<open>float\<close> reads, \<open>wind_direction\<close> the text
  itself. The parser checks no range.
\<close>

theorem parsed_records_hold_cell_values:
  assumes "parse_forecast_table tbl = Inr (d, fs)"
  shows "list_all2
           (\<lambda>t f. py_int (t ! 0) = Some (hour f) \<and> py_float (t ! 1) = Some (temperature f) \<and>
                   py_int (t ! 2) = Some (wind_speed f) \<and> wind_direction f = t ! 3 \<and>
                   py_float (t ! 4) = Some (rain_fall f))
           (tl (zip_star (rows tbl))) fs"
proof -
  from assms obtain c where c: "caption tbl = Some c"
    by (auto simp: parse_forecast_table_def split: option.splits)
  from assms c obtain d' where d': "forecast_date_of c = Inr d'"
    by (auto simp: parse_forecast_table_def split: sum.splits)
  from assms c d' obtain rest where z: "zip_star (rows tbl) = EXPECTED_DIMENSIONS # rest"
    by (auto simp: parse_forecast_table_def split: list.splits if_splits)
  note p = parse_after_header [OF c d' z]
  from assms p(1) have "day_forecast_loop rest [] = Inr fs"
    by (auto split: sum.splits)
  from loop_Inr [OF p(2) this] z show ?thesis by simp
qed

theorem parsed_records_hold_cell_values_witness:
  "parse_forecast_table
     \<lparr>caption = Some ''Forecast Date: 2024-3-5'',
      rows = [[''Time (Hour)'', ''9''], [''Temperature (oC)'', ''21.5''],
              [''Wind Speed (km/h)'', ''25''], [''Wind Direction'', ''NE''],
              [''3-Hourly Rainfall (mm)'', ''0'']]\<rparr>
   = Inr (\<lparr>year = 2024, month = 3, day = 5\<rparr>,
          [\<lparr>hour = 9, temperature = Decimal 215 (- 1), wind_speed = 25, wind_direction = ''NE'',
            rain_fall = Decimal 0 0\<rparr>])
   \<and> list_all2
        (\<lambda>t f. py_int (t ! 0) = Some (hour f) \<and> py_float (t ! 1) = Some (temperature f) \<and>
                py_int (t ! 2) = Some (wind_speed f) \<and> wind_direction f = t ! 3 \<and>
                py_float (t ! 4) = Some (rain_fall f))
        (tl (zip_star [[''Time (Hour)'', ''9''], [''Temperature (oC)'', ''21.5''],
                       [''Wind Speed (km/h)'', ''25''], [''Wind Direction'', ''NE''],
                       [''3-Hourly Rainfall (mm)'', ''0'']]))
        [\<lparr>hour = 9, temperature = Decimal 215 (- 1), wind_speed = 25, wind_direction = ''NE'',
          rain_fall = Decimal 0 0\<rparr>]"
proof -
  let ?rows = "[[''Time (Hour)'', ''9''], [''Temperature (oC)'', ''21.5''],
                [''Wind Speed (km/h)'', ''25''], [''Wind Direction'', ''NE''],
                [''3-Hourly Rainfall (mm)'', ''0'']]"
  have p: "parse_forecast_table \<lparr>caption = Some ''Forecast Date: 2024-3-5'', rows = ?rows\<rparr>
   = Inr (\<lparr>year = 2024, month = 3, day = 5\<rparr>,
          [\<lparr>hour = 9, temperature = Decimal 215 (- 1), wind_speed = 25, wind_direction = ''NE'',
            rain_fall = Decimal 0 0\<rparr>])"
    by code_simp
  from parsed_records_hold_cell_values [OF p] p show ?thesis by simp
qed

text \<open>
  C9 as stated fails: a table whose cells read hour 25, wind speed -5 and rainfall -1 is
  parsed, and the record produced holds these values.
\<close>

theorem out_of_range_values_accepted:
  "parse_forecast_table
     \<lparr>caption = Some ''Forecast Date: 2024-3-5'',
      rows = [[''Time (Hour)'', ''25''], [''Temperature (oC)'', ''20''],
              [''Wind Speed (km/h)'', ''-5''], [''Wind Direction'', ''N''],
              [''3-Hourly Rainfall (mm)'', ''-1'']]\<rparr>
   = Inr (\<lparr>year = 2024, month = 3, day = 5\<rparr>,
          [\<lparr>hour = 25, temperature = Decimal 20 0, wind_speed = - 5, wind_direction = ''N'',
            rain_fall = Decimal (- 1) 0\<rparr>])"
  by code_simp

subsection \<open>A table without rows\<close>

text \<open>
  C10. For a table with a well-formed caption and no rows, the transposed list is
  empty and the parse fails with \<open>IndexError\<close> at \<open>transposed[0]\<close>, before the header is
  compared: the failure is not \<open>TableShapeError\<close>.
\<close>

theorem zero_rows_index_error:
  "forecast_date_of c = Inr d \<Longrightarrow>
   parse_forecast_table \<lparr>caption = Some c, rows = []\<rparr> = Inl IndexError"
  by (simp add: parse_forecast_table_def zip_star_Nil)

theorem zero_rows_index_error_witness:
  "forecast_date_of ''Forecast Date: 2024-3-5'' = Inr \<lparr>year = 2024, month = 3, day = 5\<rparr>
   \<and> parse_forecast_table \<lparr>caption = Some ''Forecast Date: 2024-3-5'', rows = []\<rparr>
       = Inl IndexError"
proof -
  have d: "forecast_date_of ''Forecast Date: 2024-3-5'' = Inr \<lparr>year = 2024, month = 3, day = 5\<rparr>"
    by code_simp
  from zero_rows_index_error [OF d] d show ?thesis by simp
qed

subsection \<open>The caption\<close>


lemma days_in_month_le: "1 \<le> m \<Longrightarrow> m \<le> 12 \<Longrightarrow> days_in_month y m \<le> 31"
proof -
  assume "1 \<le> m" "m \<le> 12"
  then have "m = 1 \<or> m = 2 \<or> m = 3 \<or> m = 4 \<or> m = 5 \<or> m = 6 \<or> m = 7 \<or> m = 8 \<or> m = 9
      \<or> m = 10 \<or> m = 11 \<or> m = 12" by arith
  then show ?thesis
    by (elim disjE) (simp_all add: days_in_month_def)
qed


















section \<open>Properties of the aggregator\<close>

lemma map_of_group_step:
  "map_of (group_loop [(d, l, fs)] results) d' =
     (if d' = d then Some (AList.update l fs (case map_of results d of None \<Rightarrow> [] | Some dd \<Rightarrow> dd))
      else map_of results d')"
  by (auto simp: setdefault_def update_conv' split: option.splits)

lemma keys_group_step:
  "map fst (group_loop [(d, l, fs)] results) =
     (if d \<in> set (map fst results) then map fst results else map fst results @ [d])"
  by (auto simp: setdefault_def update_keys map_of_eq_None_iff split: option.splits
      dest: map_of_SomeD)

lemma group_loop_append:
  "group_loop (xs @ ys) results = group_loop ys (group_loop xs results)"
  by (induction xs results rule: group_loop.induct) (auto split: prod.splits)

lemma group_loop_Cons:
  "group_loop (x # xs) results = group_loop xs (group_loop [x] results)"
  using group_loop_append [of "[x]" xs results] by simp

lemma lookup_group_step:
  "lookup_records (group_loop [(d, l, fs)] results) d' l' =
     (if d' = d \<and> l' = l then Some fs else lookup_records results d' l')"
  unfolding lookup_records_def map_of_group_step
  by (auto simp: update_conv' split: option.splits)

lemma lookup_group_loop_other:
  "\<forall>(d', l', fs') \<in> set post. (d', l') \<noteq> (d, l) \<Longrightarrow>
   lookup_records (group_loop post results) d l = lookup_records results d l"
proof (induction post arbitrary: results)
  case Nil
  then show ?case by simp
next
  case (Cons x post)
  obtain d' l' fs' where x: "x = (d', l', fs')" by (cases x)
  from Cons.prems have "\<forall>(d', l', fs') \<in> set post. (d', l') \<noteq> (d, l)" by simp
  from Cons.IH [OF this] have
    "lookup_records (group_loop post (group_loop [x] results)) d l
       = lookup_records (group_loop [x] results) d l" .
  also have "\<dots> = lookup_records results d l"
    using Cons.prems unfolding x lookup_group_step by auto
  finally show ?case by (subst group_loop_Cons)
qed

lemma lookup_group_last:
  assumes "date_locations = pre @ (d, l, fs) # post"
    and "\<forall>(d', l', fs') \<in> set post. (d', l') \<noteq> (d, l)"
  shows "lookup_records (group_by_date_location date_locations) d l = Some fs"
proof -
  have "group_by_date_location date_locations
          = group_loop post (group_loop [(d, l, fs)] (group_loop pre []))"
    unfolding group_by_date_location_def assms(1)
    by (simp only: group_loop_append group_loop_Cons [of "(d, l, fs)" post])
  then show ?thesis
    by (simp only: lookup_group_loop_other [OF assms(2)] lookup_group_step) simp
qed

lemma lookup_group_absent:
  assumes "\<forall>(d', l', fs') \<in> set date_locations. (d', l') \<noteq> (d, l)"
  shows "lookup_records (group_by_date_location date_locations) d l = None"
  unfolding group_by_date_location_def lookup_group_loop_other [OF assms]
  by (simp add: lookup_records_def)

lemma distinct_group_loop:
  "distinct (map fst results) \<Longrightarrow> distinct (map fst (group_loop date_locations results))"
proof (induction date_locations arbitrary: results)
  case Nil
  then show ?case by simp
next
  case (Cons x xs)
  obtain d l fs where x: "x = (d, l, fs)" by (cases x)
  from Cons.prems have "distinct (map fst (group_loop [x] results))"
    unfolding x keys_group_step by auto
  from Cons.IH [OF this] show ?case by (subst group_loop_Cons)
qed

lemma inner_group_loop:
  "\<forall>d dd. map_of results d = Some dd \<longrightarrow> distinct (map fst dd) \<and> dd \<noteq> [] \<Longrightarrow>
   map_of (group_loop date_locations results) d = Some dd \<Longrightarrow> distinct (map fst dd) \<and> dd \<noteq> []"
proof (induction date_locations arbitrary: results)
  case Nil
  then show ?case by simp
next
  case (Cons x xs)
  obtain d' l fs where x: "x = (d', l, fs)" by (cases x)
  have "\<forall>d dd. map_of (group_loop [x] results) d = Some dd \<longrightarrow> distinct (map fst dd) \<and> dd \<noteq> []"
    using Cons.prems(1) unfolding x map_of_group_step
    by (auto simp: distinct_update split: option.splits)
  from Cons.IH [OF this] Cons.prems(2) show ?case by (subst (asm) group_loop_Cons)
qed

lemma groups_well_formed:
  "distinct (map fst (group_by_date_location date_locations))"
  "(d, dd) \<in> set (group_by_date_location date_locations) \<Longrightarrow> distinct (map fst dd) \<and> dd \<noteq> []"
proof -
  show k: "distinct (map fst (group_by_date_location date_locations))"
    unfolding group_by_date_location_def by (rule distinct_group_loop) simp
  assume "(d, dd) \<in> set (group_by_date_location date_locations)"
  with k have "map_of (group_loop date_locations []) d = Some dd"
    unfolding group_by_date_location_def by simp
  then show "distinct (map fst dd) \<and> dd \<noteq> []"
    by (rule inner_group_loop [rotated]) simp
qed

text \<open>
  C4. \<open>group_by_date_location\<close> is a total function of the list of findings. In its
  result, a pair (date, location) maps to the records of the last finding of the input
  with that pair: if no finding after a finding \<open>(d, l, fs)\<close> has the pair \<open>(d, l)\<close>, the
  result holds \<open>fs\<close> at \<open>d\<close> and \<open>l\<close>; a pair that no finding has is absent. No date and, under
  a date, no location is repeated, and every date holds a location. The three findings
  (2024-03-05, S), (2024-03-05, TM), (2024-03-06, S) give exactly two dates, the first with
  two locations and the second with one.
\<close>

theorem group_last_write_wins:
  "(date_locations = pre @ (d, l, fs) # post \<and> list_all (\<lambda>(d', l', fs'). (d', l') \<noteq> (d, l)) post
      \<longrightarrow> lookup_records (group_by_date_location date_locations) d l = Some fs)
   \<and> (list_all (\<lambda>(d', l', fs'). (d', l') \<noteq> (d, l)) date_locations
      \<longrightarrow> lookup_records (group_by_date_location date_locations) d l = None)
   \<and> distinct (map fst (group_by_date_location date_locations))
   \<and> list_all (\<lambda>(d', locations). distinct (map fst locations) \<and> locations \<noteq> [])
        (group_by_date_location date_locations)
   \<and> group_by_date_location
        [(\<lparr>year = 2024, month = 3, day = 5\<rparr>, ''S'', [h9]),
         (\<lparr>year = 2024, month = 3, day = 5\<rparr>, ''TM'', [h10]),
         (\<lparr>year = 2024, month = 3, day = 6\<rparr>, ''S'', [h12])]
      = [(\<lparr>year = 2024, month = 3, day = 5\<rparr>, [(''S'', [h9]), (''TM'', [h10])]),
         (\<lparr>year = 2024, month = 3, day = 6\<rparr>, [(''S'', [h12])])]"
proof -
  have a: "date_locations = pre @ (d, l, fs) # post \<and> list_all (\<lambda>(d', l', fs'). (d', l') \<noteq> (d, l)) post
      \<longrightarrow> lookup_records (group_by_date_location date_locations) d l = Some fs"
    using lookup_group_last [of date_locations pre d l fs post] by (simp add: list_all_iff)
  have b: "list_all (\<lambda>(d', l', fs'). (d', l') \<noteq> (d, l)) date_locations
      \<longrightarrow> lookup_records (group_by_date_location date_locations) d l = None"
    using lookup_group_absent [of date_locations d l] by (simp add: list_all_iff)
  have c: "list_all (\<lambda>(d', locations). distinct (map fst locations) \<and> locations \<noteq> [])
        (group_by_date_location date_locations)"
    using groups_well_formed(2) [of _ _ date_locations] by (auto simp: list_all_iff)
  have e: "group_by_date_location
        [(\<lparr>year = 2024, month = 3, day = 5\<rparr>, ''S'', [h9]),
         (\<lparr>year = 2024, month = 3, day = 5\<rparr>, ''TM'', [h10]),
         (\<lparr>year = 2024, month = 3, day = 6\<rparr>, ''S'', [h12])]
      = [(\<lparr>year = 2024, month = 3, day = 5\<rparr>, [(''S'', [h9]), (''TM'', [h10])]),
         (\<lparr>year = 2024, month = 3, day = 6\<rparr>, [(''S'', [h12])])]"
    by (simp add: group_by_date_location_def setdefault_def)
  from a b c e groups_well_formed(1) [of date_locations] show ?thesis by blast
qed

theorem group_last_write_wins_witness:
  "list_all (\<lambda>(d', l', fs'). (d', l') \<noteq> (\<lparr>year = 2024, month = 3, day = 5\<rparr>, ''S''))
     [(\<lparr>year = 2024, month = 3, day = 6\<rparr>, ''S'',
       [\<lparr>hour = 12, temperature = Decimal 22 0, wind_speed = 30, wind_direction = ''E'',
         rain_fall = Decimal 0 0\<rparr>])]
   \<and> lookup_records
        (group_by_date_location
           [(\<lparr>year = 2024, month = 3, day = 5\<rparr>, ''S'',
             [\<lparr>hour = 9, temperature = Decimal 20 0, wind_speed = 25, wind_direction = ''N'',
               rain_fall = Decimal 0 0\<rparr>]),
            (\<lparr>year = 2024, month = 3, day = 5\<rparr>, ''S'',
             [\<lparr>hour = 10, temperature = Decimal 21 0, wind_speed = 28, wind_direction = ''NE'',
               rain_fall = Decimal 0 0\<rparr>]),
            (\<lparr>year = 2024, month = 3, day = 6\<rparr>, ''S'',
             [\<lparr>hour = 12, temperature = Decimal 22 0, wind_speed = 30, wind_direction = ''E'',
               rain_fall = Decimal 0 0\<rparr>])])
        \<lparr>year = 2024, month = 3, day = 5\<rparr> ''S''
      = Some [\<lparr>hour = 10, temperature = Decimal 21 0, wind_speed = 28, wind_direction = ''NE'',
               rain_fall = Decimal 0 0\<rparr>]
   \<and> list_all (\<lambda>(d', l', fs'). (d', l') \<noteq> (\<lparr>year = 2024, month = 3, day = 7\<rparr>, ''S''))
        [(\<lparr>year = 2024, month = 3, day = 6\<rparr>, ''S'',
          [\<lparr>hour = 12, temperature = Decimal 22 0, wind_speed = 30, wind_direction = ''E'',
            rain_fall = Decimal 0 0\<rparr>])]
   \<and> lookup_records
        (group_by_date_location
           [(\<lparr>year = 2024, month = 3, day = 6\<rparr>, ''S'',
             [\<lparr>hour = 12, temperature = Decimal 22 0, wind_speed = 30, wind_direction = ''E'',
               rain_fall = Decimal 0 0\<rparr>])])
        \<lparr>year = 2024, month = 3, day = 7\<rparr> ''S'' = None"
proof -
  let ?d5 = "\<lparr>year = 2024, month = 3, day = 5\<rparr>"
  let ?d6 = "\<lparr>year = 2024, month = 3, day = 6\<rparr>"
  let ?d7 = "\<lparr>year = 2024, month = 3, day = 7\<rparr>"
  let ?h9 = "\<lparr>hour = 9, temperature = Decimal 20 0, wind_speed = 25, wind_direction = ''N'',
               rain_fall = Decimal 0 0\<rparr>"
  let ?h10 = "\<lparr>hour = 10, temperature = Decimal 21 0, wind_speed = 28, wind_direction = ''NE'',
               rain_fall = Decimal 0 0\<rparr>"
  let ?h12 = "\<lparr>hour = 12, temperature = Decimal 22 0, wind_speed = 30, wind_direction = ''E'',
               rain_fall = Decimal 0 0\<rparr>"
  let ?post = "[(?d6, ''S'', [?h12])]"
  have p: "list_all (\<lambda>(d', l', fs'). (d', l') \<noteq> (?d5, ''S'')) ?post" by simp
  have q: "list_all (\<lambda>(d', l', fs'). (d', l') \<noteq> (?d7, ''S'')) ?post" by simp
  have s: "[(?d5, ''S'', [?h9]), (?d5, ''S'', [?h10]), (?d6, ''S'', [?h12])]
             = [(?d5, ''S'', [?h9])] @ (?d5, ''S'', [?h10]) # ?post" by simp
  from group_last_write_wins [of "[(?d5, ''S'', [?h9]), (?d5, ''S'', [?h10]), (?d6, ''S'', [?h12])]"
      "[(?d5, ''S'', [?h9])]" ?d5 "''S''" "[?h10]" ?post] s p
  have 1: "lookup_records (group_by_date_location
      [(?d5, ''S'', [?h9]), (?d5, ''S'', [?h10]), (?d6, ''S'', [?h12])]) ?d5 ''S'' = Some [?h10]"
    by blast
  from group_last_write_wins [of ?post "[]" ?d7 "''S''" "[]" "[]"] q
  have 2: "lookup_records (group_by_date_location ?post) ?d7 ''S'' = None"
    by blast
  from p 1 q 2 show ?thesis by blast
qed

section \<open>Properties of the alert formatter\<close>

lemma str_nat_1: "n < 10 \<Longrightarrow> str_nat n = [digit_char n]"
  by (subst str_nat.simps) simp

lemma str_nat_2: "10 \<le> n \<Longrightarrow> n < 100 \<Longrightarrow> str_nat n = two_digits n"
  by (subst str_nat.simps) (simp add: str_nat_1 two_digits_def)

lemma digit_char_0: "digit_char 0 = CHR ''0''"
  by code_simp

lemma pad2_two_digits: "n < 100 \<Longrightarrow> pad2 n = two_digits n"
  by (cases "n < 10") (simp_all add: pad2_def str_nat_1 str_nat_2 two_digits_def digit_char_0)

lemma str_nat_3:
  assumes "100 \<le> n" "n < 1000"
  shows "str_nat n = [digit_char (n div 100), digit_char (n div 10 mod 10), digit_char (n mod 10)]"
proof -
  have "10 \<le> n div 10" "n div 10 < 100" using assms by simp_all
  then have "str_nat (n div 10) = two_digits (n div 10)" by (rule str_nat_2)
  moreover have "n div 10 div 10 = n div 100" by (simp add: div_mult2_eq)
  ultimately show ?thesis using assms
    by (subst str_nat.simps) (simp add: two_digits_def)
qed

lemma str_nat_4:
  assumes "1000 \<le> n" "n \<le> 9999"
  shows "str_nat n = four_digits n"
proof -
  have "100 \<le> n div 10" "n div 10 < 1000" using assms by simp_all
  then have "str_nat (n div 10) = [digit_char (n div 10 div 100), digit_char (n div 10 div 10 mod 10),
      digit_char (n div 10 mod 10)]" by (rule str_nat_3)
  moreover have "n div 10 div 100 = n div 1000" "n div 10 div 10 = n div 100"
    by (simp_all add: div_mult2_eq)
  ultimately show ?thesis using assms
    by (subst str_nat.simps) (simp add: four_digits_def)
qed

lemma strftime_dm:
  "month dt < 100 \<Longrightarrow> day dt < 100 \<Longrightarrow> strftime ''%d/%m'' dt = spec_date_DD_MM dt"
  by (simp add: directive_def spec_date_DD_MM_def pad2_two_digits)

lemma strftime_Ymda:
  "1000 \<le> year dt \<Longrightarrow> year dt \<le> 9999 \<Longrightarrow> month dt < 100 \<Longrightarrow> day dt < 100 \<Longrightarrow>
   strftime ''%Y-%m-%d (%a)'' dt = spec_date_YYYY_MM_DD_Ddd dt"
  by (simp add: directive_def spec_date_YYYY_MM_DD_Ddd_def pad2_two_digits str_nat_4)

lemma join_lines:
  "xs \<noteq> [] \<Longrightarrow> join sep xs @ sep = concat (map (\<lambda>x. x @ sep) xs)"
  by (induction sep xs rule: join.induct) simp_all

lemma records_block:
  "fs \<noteq> [] \<Longrightarrow>
   join [CHR 0x0A] (map (\<lambda>forecast. CHR 0x09 # summary forecast) fs) @ [CHR 0x0A]
     = concat (map spec_record_line fs)"
  using join_lines [of "map (\<lambda>forecast. CHR 0x09 # summary forecast) fs" "[CHR 0x0A]"]
  by (simp add: spec_record_line_def [abs_def] summary_def comp_def)

lemma location_name_known:
  "l \<in> fst ` set LOCATIONS \<Longrightarrow> location_name l = Inr (display_name l)"
  by (auto simp: location_name_def display_name_def map_of_eq_None_iff split: option.splits)

lemma location_names_known:
  "\<forall>lf \<in> set locations. fst lf \<in> fst ` set LOCATIONS \<Longrightarrow>
   location_names locations = Inr (map (\<lambda>lf. display_name (fst lf)) locations)"
  by (induction locations rule: location_names.induct) (simp_all add: location_name_known)

lemma date_summary_known:
  "\<forall>g \<in> set groups. month (fst g) < 100 \<and> day (fst g) < 100
      \<and> (\<forall>lf \<in> set (snd g). fst lf \<in> fst ` set LOCATIONS) \<Longrightarrow>
   date_summary groups = Inr (map spec_segment groups)"
proof (induction groups rule: date_summary.induct)
  case 1
  then show ?case by simp
next
  case (2 forecast_date locations groups)
  from "2.prems" have n: "location_names locations = Inr (map (\<lambda>lf. display_name (fst lf)) locations)"
    by (simp add: location_names_known)
  from "2.prems" have "\<forall>g \<in> set groups. month (fst g) < 100 \<and> day (fst g) < 100
      \<and> (\<forall>lf \<in> set (snd g). fst lf \<in> fst ` set LOCATIONS)"
    by simp
  from "2.IH" [OF n this] n "2.prems" show ?case
    by (simp add: spec_segment_def strftime_dm del: strftime.simps)
qed

lemma body_locations_known:
  "\<forall>lf \<in> set locations. fst lf \<in> fst ` set LOCATIONS \<and> snd lf \<noteq> [] \<Longrightarrow>
   body_locations locations message_body
     = Inr (message_body @ concat (map spec_location_block locations))"
proof (induction locations message_body rule: body_locations.induct)
  case (1 message_body)
  then show ?case by simp
next
  case (2 location fs locations message_body)
  from "2.prems" have n: "location_name location = Inr (display_name location)"
    by (simp add: location_name_known)
  from "2.prems" have "fs \<noteq> []" by simp
  note r = records_block [OF this]
  from "2.prems" have "\<forall>lf \<in> set locations. fst lf \<in> fst ` set LOCATIONS \<and> snd lf \<noteq> []"
    by simp
  from "2.IH" [OF n this] n r show ?case
    by (simp add: spec_location_block_def)
qed

lemma body_dates_known:
  "\<forall>g \<in> set groups. 1000 \<le> year (fst g) \<and> year (fst g) \<le> 9999 \<and> month (fst g) < 100
      \<and> day (fst g) < 100
      \<and> (\<forall>lf \<in> set (snd g). fst lf \<in> fst ` set LOCATIONS \<and> snd lf \<noteq> []) \<Longrightarrow>
   body_dates groups message_body = Inr (message_body @ concat (map spec_date_block groups))"
proof (induction groups message_body rule: body_dates.induct)
  case (1 message_body)
  then show ?case by simp
next
  case (2 forecast_date locations groups message_body)
  from "2.prems" have b: "body_locations locations
      (message_body @ (strftime ''%Y-%m-%d (%a)'' forecast_date @ [CHR 0x0A]))
     = Inr ((message_body @ (strftime ''%Y-%m-%d (%a)'' forecast_date @ [CHR 0x0A]))
            @ concat (map spec_location_block locations))"
    by (simp add: body_locations_known)
  from "2.prems" have s: "strftime ''%Y-%m-%d (%a)'' forecast_date
      = spec_date_YYYY_MM_DD_Ddd forecast_date"
    by (intro strftime_Ymda) simp_all
  from "2.prems" have "\<forall>g \<in> set groups. 1000 \<le> year (fst g) \<and> year (fst g) \<le> 9999
      \<and> month (fst g) < 100 \<and> day (fst g) < 100
      \<and> (\<forall>lf \<in> set (snd g). fst lf \<in> fst ` set LOCATIONS \<and> snd lf \<noteq> [])"
    by simp
  from "2.IH" [OF b this] b s show ?case
    by (simp add: spec_date_block_def del: strftime.simps)
qed

lemma lookup_group_loop_source:
  "lookup_records (group_loop date_locations results) d l = Some fs \<Longrightarrow>
   (d, l, fs) \<in> set date_locations \<or> lookup_records results d l = Some fs"
proof (induction date_locations arbitrary: results)
  case Nil
  then show ?case by simp
next
  case (Cons x xs)
  obtain d' l' fs' where x: "x = (d', l', fs')" by (cases x)
  from Cons.prems have "lookup_records (group_loop xs (group_loop [x] results)) d l = Some fs"
    by (subst (asm) group_loop_Cons)
  from Cons.IH [OF this] show ?case
    unfolding x lookup_group_step by (auto split: if_splits)
qed

lemma groups_from_findings:
  assumes "(d, locations) \<in> set (group_by_date_location date_locations)"
    and "(l, fs) \<in> set locations"
  shows "(d, l, fs) \<in> set date_locations"
proof -
  from groups_well_formed(1) [of date_locations] assms(1)
  have "map_of (group_by_date_location date_locations) d = Some locations" by simp
  moreover from groups_well_formed(2) [OF assms(1)] assms(2)
  have "map_of locations l = Some fs" by simp
  ultimately have "lookup_records (group_loop date_locations []) d l = Some fs"
    by (simp add: lookup_records_def group_by_date_location_def)
  from lookup_group_loop_source [OF this] show ?thesis
    by (simp add: lookup_records_def)
qed

lemma group_dates_from_findings:
  assumes "(d, locations) \<in> set (group_by_date_location date_locations)"
  shows "d \<in> fst ` set date_locations"
proof -
  from groups_well_formed(2) [OF assms] obtain l fs where "(l, fs) \<in> set locations"
    by (cases locations) auto
  from groups_from_findings [OF assms this] show ?thesis by force
qed

lemma first_seen_acc:
  "foldl (\<lambda>K k. if k \<in> set K then K else K @ [k]) K ks
     = K @ filter (\<lambda>k. k \<notin> set K) (first_seen ks)"
proof (induction ks arbitrary: K)
  case Nil
  then show ?case by simp
next
  case (Cons k ks)
  show ?case
  proof (cases "k \<in> set K")
    case True
    then have "filter (\<lambda>k. k \<notin> set K) (removeAll k (first_seen ks))
        = filter (\<lambda>k. k \<notin> set K) (first_seen ks)"
      by (auto simp: removeAll_filter_not_eq intro: filter_cong)
    with True Cons.IH [of K] show ?thesis by simp
  next
    case False
    have "filter (\<lambda>x. x \<notin> set (K @ [k])) (first_seen ks)
        = filter (\<lambda>k. k \<notin> set K) (removeAll k (first_seen ks))"
      by (auto simp: removeAll_filter_not_eq intro: filter_cong)
    with False Cons.IH [of "K @ [k]"] show ?thesis by simp
  qed
qed

lemma keys_group_loop:
  "map fst (group_loop date_locations results)
     = foldl (\<lambda>K k. if k \<in> set K then K else K @ [k]) (map fst results) (map fst date_locations)"
proof (induction date_locations arbitrary: results)
  case Nil
  then show ?case by simp
next
  case (Cons x xs)
  obtain d l fs where x: "x = (d, l, fs)" by (cases x)
  have "map fst (group_loop (x # xs) results) = map fst (group_loop xs (group_loop [x] results))"
    by (subst group_loop_Cons) simp
  also have "\<dots> = foldl (\<lambda>K k. if k \<in> set K then K else K @ [k])
      (map fst (group_loop [x] results)) (map fst xs)"
    by (rule Cons.IH)
  finally show ?case unfolding x keys_group_step by simp
qed

lemma inner_keys_group_loop:
  "map fst (case map_of (group_loop date_locations results) d of None \<Rightarrow> [] | Some dd \<Rightarrow> dd)
     = foldl (\<lambda>K k. if k \<in> set K then K else K @ [k])
         (map fst (case map_of results d of None \<Rightarrow> [] | Some dd \<Rightarrow> dd))
         (map (\<lambda>x. fst (snd x)) (filter (\<lambda>x. fst x = d) date_locations))"
proof (induction date_locations arbitrary: results)
  case Nil
  then show ?case by simp
next
  case (Cons x xs)
  obtain d' l fs where x: "x = (d', l, fs)" by (cases x)
  have "map fst (case map_of (group_loop (x # xs) results) d of None \<Rightarrow> [] | Some dd \<Rightarrow> dd)
      = map fst (case map_of (group_loop xs (group_loop [x] results)) d of None \<Rightarrow> [] | Some dd \<Rightarrow> dd)"
    by (subst group_loop_Cons) simp
  also have "\<dots> = foldl (\<lambda>K k. if k \<in> set K then K else K @ [k])
         (map fst (case map_of (group_loop [x] results) d of None \<Rightarrow> [] | Some dd \<Rightarrow> dd))
         (map (\<lambda>x. fst (snd x)) (filter (\<lambda>x. fst x = d) xs))"
    by (rule Cons.IH)
  finally show ?case unfolding x map_of_group_step
    by (auto simp: update_keys)
qed

lemma group_dates_first_seen:
  "map fst (group_by_date_location date_locations) = first_seen (map fst date_locations)"
  unfolding group_by_date_location_def keys_group_loop first_seen_acc by simp

lemma group_locations_first_seen:
  assumes "(d, locations) \<in> set (group_by_date_location date_locations)"
  shows "map fst locations
     = first_seen (map (\<lambda>x. fst (snd x)) (filter (\<lambda>x. fst x = d) date_locations))"
proof -
  from groups_well_formed(1) [of date_locations] assms
  have "map_of (group_loop date_locations []) d = Some locations"
    by (simp add: group_by_date_location_def)
  with inner_keys_group_loop [of date_locations "[]" d] show ?thesis
    by (simp add: first_seen_acc)
qed

lemma make_date_fields:
  assumes "make_date (year dt) (month dt) (day dt) = Some dt"
  shows "year dt \<le> 9999" "month dt < 100" "day dt < 100"
proof -
  from assms have v: "1 \<le> year dt" "year dt \<le> 9999" "1 \<le> month dt" "month dt \<le> 12"
    "day dt \<le> days_in_month (year dt) (month dt)"
    by (auto simp: make_date_def split: if_splits)
  from v(2) show "year dt \<le> 9999" .
  from v(4) show "month dt < 100" by simp
  from days_in_month_le [OF v(3,4), of "year dt"] v(5) show "day dt < 100" by simp
qed

text \<open>
  C3 (as amended). For findings whose dates are dates of the calendar with a year of four
  digits (1000 to 9999), whose location codes are keys of \<open>LOCATIONS\<close> and whose record lists
  are not empty, \<open>generate_alert\<close> returns the subject and the body of the specification for
  the aggregate of the findings: the subject is \<open>Strong wind forecasted: \<close> followed by the
  segments \<open>DD/MM @Name1, Name2, ...\<close> of the dates joined by \<open>; \<close>; the body has, for each
  date, the line \<open>YYYY-MM-DD (Ddd)\<close>, then for each location of the date the line of its
  display name and one line \<open>tab hour:00 - windSpeed km/h\<close> per record, every line ending
  with a newline. Dates, and locations under a date, come in the order of their first
  appearance in the findings.
\<close>

theorem generate_alert_format:
  assumes "list_all (\<lambda>(dt, l, fs). make_date (year dt) (month dt) (day dt) = Some dt
             \<and> 1000 \<le> year dt \<and> l \<in> fst ` set LOCATIONS \<and> fs \<noteq> []) date_locations"
  shows "generate_alert date_locations
           = Inr (spec_subject (group_by_date_location date_locations),
                  spec_body (group_by_date_location date_locations))
         \<and> map fst (group_by_date_location date_locations) = first_seen (map fst date_locations)
         \<and> list_all (\<lambda>(dt, locations).
               map fst locations
                 = first_seen (map (\<lambda>x. fst (snd x)) (filter (\<lambda>x. fst x = dt) date_locations)))
             (group_by_date_location date_locations)"
proof -
  let ?groups = "group_by_date_location date_locations"
  have f: "\<And>dt l fs. (dt, l, fs) \<in> set date_locations \<Longrightarrow>
      make_date (year dt) (month dt) (day dt) = Some dt \<and> 1000 \<le> year dt
      \<and> l \<in> fst ` set LOCATIONS \<and> fs \<noteq> []"
    using assms by (auto simp: list_all_iff)
  have g: "\<forall>g \<in> set ?groups. 1000 \<le> year (fst g) \<and> year (fst g) \<le> 9999 \<and> month (fst g) < 100
      \<and> day (fst g) < 100
      \<and> (\<forall>lf \<in> set (snd g). fst lf \<in> fst ` set LOCATIONS \<and> snd lf \<noteq> [])"
  proof
    fix g assume m: "g \<in> set ?groups"
    obtain dt locations where g: "g = (dt, locations)" by (cases g)
    from group_dates_from_findings [of dt locations date_locations] m g
    obtain l fs where "(dt, l, fs) \<in> set date_locations" by auto
    from f [OF this] have d: "make_date (year dt) (month dt) (day dt) = Some dt" "1000 \<le> year dt"
      by simp_all
    have "\<forall>lf \<in> set locations. fst lf \<in> fst ` set LOCATIONS \<and> snd lf \<noteq> []"
    proof
      fix lf assume "lf \<in> set locations"
      then have "(fst lf, snd lf) \<in> set locations" by simp
      from groups_from_findings [OF _ this, of dt date_locations] m g
      have "(dt, fst lf, snd lf) \<in> set date_locations" by simp
      from f [OF this] show "fst lf \<in> fst ` set LOCATIONS \<and> snd lf \<noteq> []" by simp
    qed
    with d make_date_fields [OF d(1)] g
    show "1000 \<le> year (fst g) \<and> year (fst g) \<le> 9999 \<and> month (fst g) < 100
      \<and> day (fst g) < 100
      \<and> (\<forall>lf \<in> set (snd g). fst lf \<in> fst ` set LOCATIONS \<and> snd lf \<noteq> [])"
      by simp
  qed
  then have "date_summary ?groups = Inr (map spec_segment ?groups)"
    by (intro date_summary_known) blast
  moreover from g have "body_dates ?groups [] = Inr ([] @ concat (map spec_date_block ?groups))"
    by (rule body_dates_known)
  ultimately have a: "generate_alert date_locations = Inr (spec_subject ?groups, spec_body ?groups)"
    by (simp add: generate_alert_def spec_subject_def spec_body_def Let_def)
  have c: "list_all (\<lambda>(dt, locations).
               map fst locations
                 = first_seen (map (\<lambda>x. fst (snd x)) (filter (\<lambda>x. fst x = dt) date_locations)))
             ?groups"
    using group_locations_first_seen [of _ _ date_locations] by (auto simp: list_all_iff)
  from a c group_dates_first_seen [of date_locations] show ?thesis by simp
qed

text \<open>Evaluation of the format on numerals.\<close>

lemma digit_chars:
  "digit_char 0 = CHR ''0''" "digit_char 1 = CHR ''1''" "digit_char 2 = CHR ''2''"
  "digit_char 3 = CHR ''3''" "digit_char 4 = CHR ''4''" "digit_char 5 = CHR ''5''"
  "digit_char 6 = CHR ''6''" "digit_char 7 = CHR ''7''" "digit_char 8 = CHR ''8''"
  "digit_char 9 = CHR ''9''" "digit_char (Suc 0) = CHR ''1''"
  by code_simp+


lemmas format_eval =
  spec_subject_def spec_segment_def spec_date_DD_MM_def spec_body_def spec_date_block_def
  spec_location_block_def spec_record_line_def spec_date_YYYY_MM_DD_Ddd_def
  two_digits_def four_digits_def display_name_def LOCATIONS_def digit_chars
  str_int_def str_nat.simps day_abbr_def weekday_def toordinal_def days_before_year_def
  days_before_month_def is_leap_def

theorem generate_alert_format_witness:
  "list_all (\<lambda>(dt, l, fs). make_date (year dt) (month dt) (day dt) = Some dt
             \<and> 1000 \<le> year dt \<and> l \<in> fst ` set LOCATIONS \<and> fs \<noteq> [])
     [(\<lparr>year = 2024, month = 3, day = 5\<rparr>, ''S'',
       [\<lparr>hour = 9, temperature = Decimal 20 0, wind_speed = 25, wind_direction = ''N'',
         rain_fall = Decimal 0 0\<rparr>,
        \<lparr>hour = 10, temperature = Decimal 21 0, wind_speed = 28, wind_direction = ''NE'',
         rain_fall = Decimal 0 0\<rparr>]),
      (\<lparr>year = 2024, month = 3, day = 5\<rparr>, ''TM'',
       [\<lparr>hour = 10, temperature = Decimal 21 0, wind_speed = 28, wind_direction = ''NE'',
         rain_fall = Decimal 0 0\<rparr>]),
      (\<lparr>year = 2024, month = 3, day = 6\<rparr>, ''S'',
       [\<lparr>hour = 12, temperature = Decimal 22 0, wind_speed = 30, wind_direction = ''E'',
         rain_fall = Decimal 0 0\<rparr>])]
   \<and> generate_alert
     [(\<lparr>year = 2024, month = 3, day = 5\<rparr>, ''S'',
       [\<lparr>hour = 9, temperature = Decimal 20 0, wind_speed = 25, wind_direction = ''N'',
         rain_fall = Decimal 0 0\<rparr>,
        \<lparr>hour = 10, temperature = Decimal 21 0, wind_speed = 28, wind_direction = ''NE'',
         rain_fall = Decimal 0 0\<rparr>]),
      (\<lparr>year = 2024, month = 3, day = 5\<rparr>, ''TM'',
       [\<lparr>hour = 10, temperature = Decimal 21 0, wind_speed = 28, wind_direction = ''NE'',
         rain_fall = Decimal 0 0\<rparr>]),
      (\<lparr>year = 2024, month = 3, day = 6\<rparr>, ''S'',
       [\<lparr>hour = 12, temperature = Decimal 22 0, wind_speed = 30, wind_direction = ''E'',
         rain_fall = Decimal 0 0\<rparr>])]
   = Inr (''Strong wind forecasted: 05/03 @Stanley, Tap Mun; 06/03 @Stanley'',
          ''2024-03-05 (Tue)'' @ [CHR 0x0A]
          @ ''Stanley'' @ [CHR 0x0A]
          @ [CHR 0x09] @ ''9:00 - 25 km/h'' @ [CHR 0x0A]
          @ [CHR 0x09] @ ''10:00 - 28 km/h'' @ [CHR 0x0A]
          @ ''Tap Mun'' @ [CHR 0x0A]
          @ [CHR 0x09] @ ''10:00 - 28 km/h'' @ [CHR 0x0A]
          @ ''2024-03-06 (Wed)'' @ [CHR 0x0A]
          @ ''Stanley'' @ [CHR 0x0A]
          @ [CHR 0x09] @ ''12:00 - 30 km/h'' @ [CHR 0x0A])"
proof -
  let ?fs = "[(\<lparr>year = 2024, month = 3, day = 5\<rparr>, ''S'',
       [\<lparr>hour = 9, temperature = Decimal 20 0, wind_speed = 25, wind_direction = ''N'',
         rain_fall = Decimal 0 0\<rparr>,
        \<lparr>hour = 10, temperature = Decimal 21 0, wind_speed = 28, wind_direction = ''NE'',
         rain_fall = Decimal 0 0\<rparr>]),
      (\<lparr>year = 2024, month = 3, day = 5\<rparr>, ''TM'',
       [\<lparr>hour = 10, temperature = Decimal 21 0, wind_speed = 28, wind_direction = ''NE'',
         rain_fall = Decimal 0 0\<rparr>]),
      (\<lparr>year = 2024, month = 3, day = 6\<rparr>, ''S'',
       [\<lparr>hour = 12, temperature = Decimal 22 0, wind_speed = 30, wind_direction = ''E'',
         rain_fall = Decimal 0 0\<rparr>])]"
  have h: "list_all (\<lambda>(dt, l, fs). make_date (year dt) (month dt) (day dt) = Some dt
             \<and> 1000 \<le> year dt \<and> l \<in> fst ` set LOCATIONS \<and> fs \<noteq> []) ?fs"
    by (simp add: make_date_def days_in_month_def is_leap_def LOCATIONS_def)
  have g: "group_by_date_location ?fs =
      [(\<lparr>year = 2024, month = 3, day = 5\<rparr>,
        [(''S'', [\<lparr>hour = 9, temperature = Decimal 20 0, wind_speed = 25, wind_direction = ''N'',
                  rain_fall = Decimal 0 0\<rparr>,
                 \<lparr>hour = 10, temperature = Decimal 21 0, wind_speed = 28, wind_direction = ''NE'',
                  rain_fall = Decimal 0 0\<rparr>]),
         (''TM'', [\<lparr>hour = 10, temperature = Decimal 21 0, wind_speed = 28,
                   wind_direction = ''NE'', rain_fall = Decimal 0 0\<rparr>])]),
       (\<lparr>year = 2024, month = 3, day = 6\<rparr>,
        [(''S'', [\<lparr>hour = 12, temperature = Decimal 22 0, wind_speed = 30, wind_direction = ''E'',
                  rain_fall = Decimal 0 0\<rparr>])])]"
    by (simp add: group_by_date_location_def setdefault_def)
  have s: "spec_subject (group_by_date_location ?fs)
      = ''Strong wind forecasted: 05/03 @Stanley, Tap Mun; 06/03 @Stanley''"
    unfolding g by (simp add: format_eval)
  have b: "spec_body (group_by_date_location ?fs)
      = ''2024-03-05 (Tue)'' @ [CHR 0x0A]
          @ ''Stanley'' @ [CHR 0x0A]
          @ [CHR 0x09] @ ''9:00 - 25 km/h'' @ [CHR 0x0A]
          @ [CHR 0x09] @ ''10:00 - 28 km/h'' @ [CHR 0x0A]
          @ ''Tap Mun'' @ [CHR 0x0A]
          @ [CHR 0x09] @ ''10:00 - 28 km/h'' @ [CHR 0x0A]
          @ ''2024-03-06 (Wed)'' @ [CHR 0x0A]
          @ ''Stanley'' @ [CHR 0x0A]
          @ [CHR 0x09] @ ''12:00 - 30 km/h'' @ [CHR 0x0A]"
    unfolding g by (simp add: format_eval)
  from generate_alert_format [OF h] have "generate_alert ?fs
      = Inr (spec_subject (group_by_date_location ?fs), spec_body (group_by_date_location ?fs))"
    by blast
  with h show ?thesis unfolding s b by blast
qed

text \<open>
  C3 as stated fails for a year below 1000: the caption \<open>Forecast Date: 0005-3-5\<close> gives
  the date of year 5, and the body then starts with \<open>5-03-05 (Sat)\<close>, where the format
  \<open>YYYY-MM-DD (Ddd)\<close> of the specification is \<open>0005-03-05 (Sat)\<close>.
\<close>

theorem year_below_1000_not_padded:
  "forecast_date_of ''Forecast Date: 0005-3-5'' = Inr \<lparr>year = 5, month = 3, day = 5\<rparr>
   \<and> generate_alert
       [(\<lparr>year = 5, month = 3, day = 5\<rparr>, ''S'',
         [\<lparr>hour = 9, temperature = Decimal 215 (- 1), wind_speed = 25, wind_direction = ''NE'',
           rain_fall = Decimal 5 (- 1)\<rparr>])]
     = Inr (''Strong wind forecasted: 05/03 @Stanley'',
            ''5-03-05 (Sat)'' @ [CHR 0x0A]
            @ ''Stanley'' @ [CHR 0x0A]
            @ [CHR 0x09] @ ''9:00 - 25 km/h'' @ [CHR 0x0A])
   \<and> spec_body (group_by_date_location
       [(\<lparr>year = 5, month = 3, day = 5\<rparr>, ''S'',
         [\<lparr>hour = 9, temperature = Decimal 215 (- 1), wind_speed = 25, wind_direction = ''NE'',
           rain_fall = Decimal 5 (- 1)\<rparr>])])
     = ''0005-03-05 (Sat)'' @ [CHR 0x0A]
       @ ''Stanley'' @ [CHR 0x0A]
       @ [CHR 0x09] @ ''9:00 - 25 km/h'' @ [CHR 0x0A]"
proof -
  let ?fs = "[(\<lparr>year = 5, month = 3, day = 5\<rparr>, ''S'',
         [\<lparr>hour = 9, temperature = Decimal 215 (- 1), wind_speed = 25, wind_direction = ''NE'',
           rain_fall = Decimal 5 (- 1)\<rparr>])]"
  have c: "forecast_date_of ''Forecast Date: 0005-3-5'' = Inr \<lparr>year = 5, month = 3, day = 5\<rparr>"
    by code_simp
  have g: "group_by_date_location ?fs =
      [(\<lparr>year = 5, month = 3, day = 5\<rparr>,
        [(''S'', [\<lparr>hour = 9, temperature = Decimal 215 (- 1), wind_speed = 25,
                  wind_direction = ''NE'', rain_fall = Decimal 5 (- 1)\<rparr>])])]"
    by (simp add: group_by_date_location_def setdefault_def)
  have a: "generate_alert ?fs
     = Inr (''Strong wind forecasted: 05/03 @Stanley'',
            ''5-03-05 (Sat)'' @ [CHR 0x0A]
            @ ''Stanley'' @ [CHR 0x0A]
            @ [CHR 0x09] @ ''9:00 - 25 km/h'' @ [CHR 0x0A])"
    unfolding generate_alert_def g
    by (simp add: location_name_def directive_def pad2_def summary_def format_eval)
  have b: "spec_body (group_by_date_location ?fs)
     = ''0005-03-05 (Sat)'' @ [CHR 0x0A]
       @ ''Stanley'' @ [CHR 0x0A]
       @ [CHR 0x09] @ ''9:00 - 25 km/h'' @ [CHR 0x0A]"
    unfolding g by (simp add: format_eval)
  show ?thesis by (intro conjI) (fact c, fact a, fact b)
qed

section \<open>Properties of the handler\<close>

lemma tables_loop_fail:
  "tbl \<in> set tables \<Longrightarrow> parse_forecast_table tbl = Inl e \<Longrightarrow>
   \<exists>e'. tables_loop location tables found = Inl e'"
proof (induction tables arbitrary: found)
  case Nil
  then show ?case by simp
next
  case (Cons t ts)
  show ?case
  proof (cases "parse_forecast_table t")
    case (Inl e')
    then show ?thesis by simp
  next
    case (Inr r)
    with Cons.prems have "tbl \<in> set ts" by auto
    from Cons.IH [OF this Cons.prems(2)] Inr show ?thesis
      by (cases r) (simp add: Let_def)
  qed
qed

lemma tables_loop_found:
  "tables_loop location tables found = Inr found' \<Longrightarrow> x \<in> set found' \<Longrightarrow>
   x \<in> set found \<or>
   (\<exists>tbl \<in> set tables. \<exists>d fs. parse_forecast_table tbl = Inr (d, fs)
       \<and> x = (d, location, filter is_strong fs) \<and> filter is_strong fs \<noteq> [])"
proof (induction tables arbitrary: found)
  case Nil
  then show ?case by simp
next
  case (Cons t ts)
  from Cons.prems(1) obtain d fs where p: "parse_forecast_table t = Inr (d, fs)"
    by (cases "parse_forecast_table t") auto
  let ?f = "if filter is_strong fs \<noteq> [] then found @ [(d, location, filter is_strong fs)] else found"
  from Cons.prems(1) p have "tables_loop location ts ?f = Inr found'"
    by (simp add: Let_def)
  from Cons.IH [OF this Cons.prems(2)] p show ?case
    by (auto split: if_splits)
qed

lemma tables_loop_keeps:
  "tables_loop location tables found = Inr found' \<Longrightarrow> set found \<subseteq> set found'"
proof (induction tables arbitrary: found)
  case Nil
  then show ?case by simp
next
  case (Cons t ts)
  from Cons.prems(1) obtain d fs where p: "parse_forecast_table t = Inr (d, fs)"
    by (cases "parse_forecast_table t") auto
  let ?f = "if filter is_strong fs \<noteq> [] then found @ [(d, location, filter is_strong fs)] else found"
  from Cons.prems(1) p have "tables_loop location ts ?f = Inr found'"
    by (simp add: Let_def)
  from Cons.IH [OF this] show ?case
    by (auto split: if_splits)
qed

lemma tables_loop_complete:
  "tables_loop location tables found = Inr found' \<Longrightarrow> tbl \<in> set tables \<Longrightarrow>
   parse_forecast_table tbl = Inr (d, fs) \<Longrightarrow> filter is_strong fs \<noteq> [] \<Longrightarrow>
   (d, location, filter is_strong fs) \<in> set found'"
proof (induction tables arbitrary: found)
  case Nil
  then show ?case by simp
next
  case (Cons t ts)
  from Cons.prems(1) obtain d' fs' where p: "parse_forecast_table t = Inr (d', fs')"
    by (cases "parse_forecast_table t") auto
  let ?f = "if filter is_strong fs' \<noteq> [] then found @ [(d', location, filter is_strong fs')] else found"
  from Cons.prems(1) p have l: "tables_loop location ts ?f = Inr found'"
    by (simp add: Let_def)
  show ?case
  proof (cases "tbl = t")
    case True
    with p Cons.prems(3,4) have "(d, location, filter is_strong fs) \<in> set ?f" by simp
    with tables_loop_keeps [OF l] show ?thesis by blast
  next
    case False
    with Cons.prems(2) have "tbl \<in> set ts" by simp
    from Cons.IH [OF l this Cons.prems(3,4)] show ?thesis .
  qed
qed

lemma locations_loop_fail:
  "l \<in> set locations \<Longrightarrow>
   (\<exists>e. fetch l = Inl e)
     \<or> (\<exists>ts tbl e. fetch l = Inr ts \<and> tbl \<in> set (drop 1 ts) \<and> parse_forecast_table tbl = Inl e) \<Longrightarrow>
   \<exists>e'. locations_loop fetch locations found = Inl e'"
proof (induction locations arbitrary: found)
  case Nil
  then show ?case by simp
next
  case (Cons a ls)
  show ?case
  proof (cases "fetch a")
    case (Inl e)
    then show ?thesis by simp
  next
    case (Inr ts)
    show ?thesis
    proof (cases "tables_loop a (drop 1 ts) found")
      case (Inl e)
      with Inr show ?thesis by simp
    next
      case (Inr found')
      have "l \<noteq> a"
      proof
        assume "l = a"
        with Cons.prems(2) \<open>fetch a = Inr ts\<close> obtain tbl e where
          "tbl \<in> set (drop 1 ts)" "parse_forecast_table tbl = Inl e" by auto
        from tables_loop_fail [OF this, of a found] Inr show False by simp
      qed
      with Cons.prems(1) have "l \<in> set ls" by simp
      from Cons.IH [OF this Cons.prems(2), of found'] Inr \<open>fetch a = Inr ts\<close>
      show ?thesis by simp
    qed
  qed
qed

lemma locations_loop_found:
  "locations_loop fetch locations found = Inr found' \<Longrightarrow> x \<in> set found' \<Longrightarrow>
   x \<in> set found \<or>
   (\<exists>l \<in> set locations. \<exists>ts. fetch l = Inr ts \<and>
      (\<exists>tbl \<in> set (drop 1 ts). \<exists>d fs. parse_forecast_table tbl = Inr (d, fs)
         \<and> x = (d, l, filter is_strong fs) \<and> filter is_strong fs \<noteq> []))"
proof (induction locations arbitrary: found)
  case Nil
  then show ?case by simp
next
  case (Cons a ls)
  from Cons.prems(1) obtain ts where f: "fetch a = Inr ts"
    by (cases "fetch a") auto
  with Cons.prems(1) obtain mid where t: "tables_loop a (drop 1 ts) found = Inr mid"
    by (cases "tables_loop a (drop 1 ts) found") auto
  with f Cons.prems(1) have "locations_loop fetch ls mid = Inr found'" by simp
  from Cons.IH [OF this Cons.prems(2)] show ?case
  proof
    assume "x \<in> set mid"
    from tables_loop_found [OF t this] f show ?thesis by auto
  next
    assume "\<exists>l \<in> set ls. \<exists>ts. fetch l = Inr ts \<and>
      (\<exists>tbl \<in> set (drop 1 ts). \<exists>d fs. parse_forecast_table tbl = Inr (d, fs)
         \<and> x = (d, l, filter is_strong fs) \<and> filter is_strong fs \<noteq> [])"
    then show ?thesis by auto
  qed
qed

lemma locations_loop_keeps:
  "locations_loop fetch locations found = Inr found' \<Longrightarrow> set found \<subseteq> set found'"
proof (induction locations arbitrary: found)
  case Nil
  then show ?case by simp
next
  case (Cons a ls)
  from Cons.prems(1) obtain ts where f: "fetch a = Inr ts"
    by (cases "fetch a") auto
  with Cons.prems(1) obtain mid where t: "tables_loop a (drop 1 ts) found = Inr mid"
    by (cases "tables_loop a (drop 1 ts) found") auto
  with f Cons.prems(1) have "locations_loop fetch ls mid = Inr found'" by simp
  from Cons.IH [OF this] tables_loop_keeps [OF t] show ?case by blast
qed

lemma locations_loop_complete:
  "locations_loop fetch locations found = Inr found' \<Longrightarrow> l \<in> set locations \<Longrightarrow>
   fetch l = Inr ts \<Longrightarrow> tbl \<in> set (drop 1 ts) \<Longrightarrow>
   parse_forecast_table tbl = Inr (d, fs) \<Longrightarrow> filter is_strong fs \<noteq> [] \<Longrightarrow>
   (d, l, filter is_strong fs) \<in> set found'"
proof (induction locations arbitrary: found)
  case Nil
  then show ?case by simp
next
  case (Cons a ls)
  from Cons.prems(1) obtain ts' where f: "fetch a = Inr ts'"
    by (cases "fetch a") auto
  with Cons.prems(1) obtain mid where t: "tables_loop a (drop 1 ts') found = Inr mid"
    by (cases "tables_loop a (drop 1 ts') found") auto
  with f Cons.prems(1) have r: "locations_loop fetch ls mid = Inr found'" by simp
  show ?case
  proof (cases "l = a")
    case True
    with f Cons.prems(3) have "ts' = ts" by simp
    with True t tables_loop_complete [OF _ Cons.prems(4,5,6), of a found mid]
    have "(d, l, filter is_strong fs) \<in> set mid" by simp
    with locations_loop_keeps [OF r] show ?thesis by blast
  next
    case False
    with Cons.prems(2) have "l \<in> set ls" by simp
    from Cons.IH [OF r this Cons.prems(3,4,5,6)] show ?thesis .
  qed
qed

lemma location_names_total:
  "\<forall>lf \<in> set locations. fst lf \<in> fst ` set LOCATIONS \<Longrightarrow>
   \<exists>names. location_names locations = Inr names"
  by (simp add: location_names_known)

lemma date_summary_total:
  "\<forall>g \<in> set groups. \<forall>lf \<in> set (snd g). fst lf \<in> fst ` set LOCATIONS \<Longrightarrow>
   \<exists>summaries. date_summary groups = Inr summaries"
proof (induction groups rule: date_summary.induct)
  case 1
  then show ?case by simp
next
  case (2 forecast_date locations groups)
  from "2.prems" location_names_total [of locations]
  obtain names where n: "location_names locations = Inr names" by auto
  from "2.prems" have "\<forall>g \<in> set groups. \<forall>lf \<in> set (snd g). fst lf \<in> fst ` set LOCATIONS"
    by simp
  from "2.IH" [OF n this] n show ?case by auto
qed

lemma body_locations_total:
  "\<forall>lf \<in> set locations. fst lf \<in> fst ` set LOCATIONS \<Longrightarrow>
   \<exists>body. body_locations locations message_body = Inr body"
proof (induction locations message_body rule: body_locations.induct)
  case (1 message_body)
  then show ?case by simp
next
  case (2 location fs locations message_body)
  from "2.prems" have n: "location_name location = Inr (display_name location)"
    by (simp add: location_name_known)
  from "2.prems" have "\<forall>lf \<in> set locations. fst lf \<in> fst ` set LOCATIONS" by simp
  from "2.IH" [OF n this] n show ?case by simp
qed

lemma body_dates_total:
  "\<forall>g \<in> set groups. \<forall>lf \<in> set (snd g). fst lf \<in> fst ` set LOCATIONS \<Longrightarrow>
   \<exists>body. body_dates groups message_body = Inr body"
proof (induction groups message_body rule: body_dates.induct)
  case (1 message_body)
  then show ?case by simp
next
  case (2 forecast_date locations groups message_body)
  from "2.prems" body_locations_total [of locations]
  obtain b where b: "body_locations locations
      (message_body @ (strftime ''%Y-%m-%d (%a)'' forecast_date @ [CHR 0x0A])) = Inr b"
    by fastforce
  from "2.prems" have "\<forall>g \<in> set groups. \<forall>lf \<in> set (snd g). fst lf \<in> fst ` set LOCATIONS"
    by simp
  from "2.IH" [OF b this] b show ?case by (simp del: strftime.simps)
qed

lemma generate_alert_total:
  assumes "\<forall>x \<in> set date_locations. fst (snd x) \<in> fst ` set LOCATIONS"
  shows "\<exists>message_subject message_body.
           generate_alert date_locations = Inr (message_subject, message_body)"
proof -
  let ?groups = "group_by_date_location date_locations"
  have k: "\<forall>g \<in> set ?groups. \<forall>lf \<in> set (snd g). fst lf \<in> fst ` set LOCATIONS"
  proof (intro ballI)
    fix g lf assume "g \<in> set ?groups" "lf \<in> set (snd g)"
    then have "(fst g, snd g) \<in> set ?groups" "(fst lf, snd lf) \<in> set (snd g)" by simp_all
    from groups_from_findings [OF this] assms show "fst lf \<in> fst ` set LOCATIONS" by force
  qed
  from date_summary_total [OF k] obtain s where "date_summary ?groups = Inr s" by blast
  moreover from body_dates_total [OF k, of "[]"] obtain b where "body_dates ?groups [] = Inr b"
    by blast
  ultimately show ?thesis by (simp add: generate_alert_def Let_def)
qed

lemma handler_cases:
  "(\<exists>e. locations_loop fetch (map fst LOCATIONS) [] = Inl e
        \<and> lambda_handler fetch publish = \<lparr>raised = Some e, sent = []\<rparr>)
   \<or> (locations_loop fetch (map fst LOCATIONS) [] = Inr []
        \<and> lambda_handler fetch publish = \<lparr>raised = None, sent = []\<rparr>)
   \<or> (\<exists>found message_subject message_body.
        locations_loop fetch (map fst LOCATIONS) [] = Inr found \<and> found \<noteq> []
        \<and> generate_alert found = Inr (message_subject, message_body)
        \<and> lambda_handler fetch publish
            = \<lparr>raised = publish (message_subject, message_body),
               sent = [(message_subject, message_body)]\<rparr>)"
proof (cases "locations_loop fetch (map fst LOCATIONS) []")
  case (Inl e)
  then show ?thesis by (simp add: lambda_handler_def)
next
  case (Inr found)
  show ?thesis
  proof (cases "found = []")
    case True
    with Inr show ?thesis by (simp add: lambda_handler_def)
  next
    case False
    have "\<forall>x \<in> set found. fst (snd x) \<in> fst ` set LOCATIONS"
    proof
      fix x assume "x \<in> set found"
      from locations_loop_found [OF Inr this] show "fst (snd x) \<in> fst ` set LOCATIONS"
        by force
    qed
    from generate_alert_total [OF this] obtain s b where "generate_alert found = Inr (s, b)"
      by blast
    with Inr False show ?thesis by (simp add: lambda_handler_def)
  qed
qed

lemma sent_iff_scan:
  "(sent (lambda_handler fetch publish) \<noteq> []
      \<longleftrightarrow> (\<exists>found. locations_loop fetch (map fst LOCATIONS) [] = Inr found \<and> found \<noteq> []))
   \<and> length (sent (lambda_handler fetch publish)) \<le> 1
   \<and> (locations_loop fetch (map fst LOCATIONS) [] = Inr found \<longrightarrow>
        (found \<noteq> [] \<longleftrightarrow>
           (\<exists>l \<in> set (map fst LOCATIONS). \<exists>ts. fetch l = Inr ts \<and>
              (\<exists>tbl \<in> set (drop 1 ts). \<exists>d fs. parse_forecast_table tbl = Inr (d, fs)
                 \<and> (\<exists>f \<in> set fs. is_strong f)))))
   \<and> ((\<forall>l ts tbl d fs. l \<in> set (map fst LOCATIONS) \<and> fetch l = Inr ts \<and> tbl \<in> set (drop 1 ts)
           \<and> parse_forecast_table tbl = Inr (d, fs) \<longrightarrow> (\<forall>f \<in> set fs. \<not> is_strong f))
        \<longrightarrow> sent (lambda_handler fetch publish) = [])"
proof -
  let ?scan = "locations_loop fetch (map fst LOCATIONS) []"
  note h = handler_cases [of fetch publish]
  from h have a: "sent (lambda_handler fetch publish) \<noteq> []
      \<longleftrightarrow> (\<exists>found. ?scan = Inr found \<and> found \<noteq> [])"
    by auto
  from h have b: "length (sent (lambda_handler fetch publish)) \<le> 1"
    by auto
  have c: "found \<noteq> [] \<longleftrightarrow>
           (\<exists>l \<in> set (map fst LOCATIONS). \<exists>ts. fetch l = Inr ts \<and>
              (\<exists>tbl \<in> set (drop 1 ts). \<exists>d fs. parse_forecast_table tbl = Inr (d, fs)
                 \<and> (\<exists>f \<in> set fs. is_strong f)))" if s: "?scan = Inr found" for found
  proof
    assume "found \<noteq> []"
    then obtain x where "x \<in> set found" by (cases found) auto
    from locations_loop_found [OF s this]
    have "\<exists>l \<in> set (map fst LOCATIONS). \<exists>ts. fetch l = Inr ts \<and>
      (\<exists>tbl \<in> set (drop 1 ts). \<exists>d fs. parse_forecast_table tbl = Inr (d, fs)
         \<and> x = (d, l, filter is_strong fs) \<and> filter is_strong fs \<noteq> [])"
      by (simp del: set_map)
    then obtain l ts tbl d fs where "l \<in> set (map fst LOCATIONS)" "fetch l = Inr ts"
      "tbl \<in> set (drop 1 ts)" "parse_forecast_table tbl = Inr (d, fs)" "filter is_strong fs \<noteq> []"
      by blast
    then show "\<exists>l \<in> set (map fst LOCATIONS). \<exists>ts. fetch l = Inr ts \<and>
              (\<exists>tbl \<in> set (drop 1 ts). \<exists>d fs. parse_forecast_table tbl = Inr (d, fs)
                 \<and> (\<exists>f \<in> set fs. is_strong f))"
      unfolding filter_empty_conv by blast
  next
    assume "\<exists>l \<in> set (map fst LOCATIONS). \<exists>ts. fetch l = Inr ts \<and>
              (\<exists>tbl \<in> set (drop 1 ts). \<exists>d fs. parse_forecast_table tbl = Inr (d, fs)
                 \<and> (\<exists>f \<in> set fs. is_strong f))"
    then obtain l ts tbl d fs where k: "l \<in> set (map fst LOCATIONS)" "fetch l = Inr ts"
      "tbl \<in> set (drop 1 ts)" "parse_forecast_table tbl = Inr (d, fs)" and "\<exists>f \<in> set fs. is_strong f"
      by blast
    then have "filter is_strong fs \<noteq> []" unfolding filter_empty_conv by blast
    from locations_loop_complete [OF s k this] show "found \<noteq> []" by auto
  qed
  have d: "sent (lambda_handler fetch publish) = []"
    if n: "\<forall>l ts tbl d fs. l \<in> set (map fst LOCATIONS) \<and> fetch l = Inr ts \<and> tbl \<in> set (drop 1 ts)
           \<and> parse_forecast_table tbl = Inr (d, fs) \<longrightarrow> (\<forall>f \<in> set fs. \<not> is_strong f)"
  proof (rule ccontr)
    assume "sent (lambda_handler fetch publish) \<noteq> []"
    with a obtain found where s: "?scan = Inr found" and "found \<noteq> []" by blast
    with c [OF s] n show False by blast
  qed
  from a b c d show ?thesis by blast
qed

lemma tables_loop_total:
  "\<forall>tbl \<in> set tables. \<exists>d fs. parse_forecast_table tbl = Inr (d, fs) \<Longrightarrow>
   \<exists>found'. tables_loop location tables found = Inr found'"
proof (induction tables arbitrary: found)
  case Nil
  then show ?case by simp
next
  case (Cons t ts)
  from Cons.prems obtain d fs where p: "parse_forecast_table t = Inr (d, fs)" by auto
  from Cons.prems have "\<forall>tbl \<in> set ts. \<exists>d fs. parse_forecast_table tbl = Inr (d, fs)" by simp
  from Cons.IH [OF this] p show ?case by (simp add: Let_def)
qed

lemma locations_loop_total:
  "\<forall>l \<in> set locations. \<exists>ts. fetch l = Inr ts
      \<and> (\<forall>tbl \<in> set (drop 1 ts). \<exists>d fs. parse_forecast_table tbl = Inr (d, fs)) \<Longrightarrow>
   \<exists>found'. locations_loop fetch locations found = Inr found'"
proof (induction locations arbitrary: found)
  case Nil
  then show ?case by simp
next
  case (Cons a ls)
  from Cons.prems obtain ts where f: "fetch a = Inr ts"
    and p: "\<forall>tbl \<in> set (drop 1 ts). \<exists>d fs. parse_forecast_table tbl = Inr (d, fs)"
    by auto
  from tables_loop_total [OF p, of a found] obtain mid where
    t: "tables_loop a (drop 1 ts) found = Inr mid" by blast
  from Cons.prems have "\<forall>l \<in> set ls. \<exists>ts. fetch l = Inr ts
      \<and> (\<forall>tbl \<in> set (drop 1 ts). \<exists>d fs. parse_forecast_table tbl = Inr (d, fs))"
    by simp
  from Cons.IH [OF this, of mid] f t show ?case by simp
qed

text \<open>
  C5 (as amended). In every run in which every request succeeds and every table after the
  first of every location parses, the notifier is called if and only if a flagged finding
  exists, that is, some such table has a record that \<open>is_strong\<close> accepts. In every run, the
  notifier is called only if such a record exists, and at most once; when no parsed table
  has a record that \<open>is_strong\<close> accepts, it is not called.
\<close>

theorem notifier_called_iff_finding:
  "((\<forall>l \<in> set (map fst LOCATIONS). \<exists>ts. fetch l = Inr ts
        \<and> (\<forall>tbl \<in> set (drop 1 ts). \<exists>d fs. parse_forecast_table tbl = Inr (d, fs)))
     \<longrightarrow> (sent (lambda_handler fetch publish) \<noteq> []
           \<longleftrightarrow> (\<exists>l \<in> set (map fst LOCATIONS). \<exists>ts. fetch l = Inr ts \<and>
                  (\<exists>tbl \<in> set (drop 1 ts). \<exists>d fs. parse_forecast_table tbl = Inr (d, fs)
                     \<and> (\<exists>f \<in> set fs. is_strong f)))))
   \<and> (sent (lambda_handler fetch publish) \<noteq> []
        \<longrightarrow> (\<exists>l \<in> set (map fst LOCATIONS). \<exists>ts. fetch l = Inr ts \<and>
               (\<exists>tbl \<in> set (drop 1 ts). \<exists>d fs. parse_forecast_table tbl = Inr (d, fs)
                  \<and> (\<exists>f \<in> set fs. is_strong f))))
   \<and> length (sent (lambda_handler fetch publish)) \<le> 1
   \<and> ((\<forall>l ts tbl d fs. l \<in> set (map fst LOCATIONS) \<and> fetch l = Inr ts \<and> tbl \<in> set (drop 1 ts)
           \<and> parse_forecast_table tbl = Inr (d, fs) \<longrightarrow> (\<forall>f \<in> set fs. \<not> is_strong f))
        \<longrightarrow> sent (lambda_handler fetch publish) = [])"
proof -
  let ?scan = "locations_loop fetch (map fst LOCATIONS) []"
  let ?strong = "\<exists>l \<in> set (map fst LOCATIONS). \<exists>ts. fetch l = Inr ts \<and>
                  (\<exists>tbl \<in> set (drop 1 ts). \<exists>d fs. parse_forecast_table tbl = Inr (d, fs)
                     \<and> (\<exists>f \<in> set fs. is_strong f))"
  note s = sent_iff_scan [of fetch publish]
  have only_if: "?strong" if n: "sent (lambda_handler fetch publish) \<noteq> []"
  proof -
    from n s [THEN conjunct1] obtain found where f: "?scan = Inr found" "found \<noteq> []"
      by blast
    from sent_iff_scan [of fetch publish found, THEN conjunct2, THEN conjunct2, THEN conjunct1] f
    show ?thesis by blast
  qed
  have "if": "sent (lambda_handler fetch publish) \<noteq> []"
    if t: "\<forall>l \<in> set (map fst LOCATIONS). \<exists>ts. fetch l = Inr ts
        \<and> (\<forall>tbl \<in> set (drop 1 ts). \<exists>d fs. parse_forecast_table tbl = Inr (d, fs))"
      and st: "?strong"
  proof -
    from locations_loop_total [OF t, of "[]"] obtain found where f: "?scan = Inr found" by blast
    from sent_iff_scan [of fetch publish found, THEN conjunct2, THEN conjunct2, THEN conjunct1] f st
    have "found \<noteq> []" by blast
    with f s [THEN conjunct1] show ?thesis by blast
  qed
  from only_if "if" s [THEN conjunct2, THEN conjunct1]
    sent_iff_scan [of fetch publish "[]", THEN conjunct2, THEN conjunct2, THEN conjunct2]
  show ?thesis by blast
qed

theorem notifier_called_iff_finding_witness:
  "parse_forecast_table
     \<lparr>caption = Some ''Forecast Date: 2024-3-5'',
      rows = [[''Time (Hour)'', ''8'', ''9'', ''17''],
              [''Temperature (oC)'', ''20'', ''21.5'', ''19''],
              [''Wind Speed (km/h)'', ''15'', ''25'', ''30''],
              [''Wind Direction'', ''E'', ''NE'', ''N''],
              [''3-Hourly Rainfall (mm)'', ''0'', ''0.5'', ''1'']]\<rparr>
   = Inr (\<lparr>year = 2024, month = 3, day = 5\<rparr>,
          [\<lparr>hour = 8, temperature = Decimal 20 0, wind_speed = 15, wind_direction = ''E'',
            rain_fall = Decimal 0 0\<rparr>,
           \<lparr>hour = 9, temperature = Decimal 215 (- 1), wind_speed = 25, wind_direction = ''NE'',
            rain_fall = Decimal 5 (- 1)\<rparr>,
           \<lparr>hour = 17, temperature = Decimal 19 0, wind_speed = 30, wind_direction = ''N'',
            rain_fall = Decimal 1 0\<rparr>])
   \<and> is_strong \<lparr>hour = 9, temperature = Decimal 215 (- 1), wind_speed = 25,
                 wind_direction = ''NE'', rain_fall = Decimal 5 (- 1)\<rparr>
   \<and> sent (lambda_handler
        (\<lambda>l. Inr [\<lparr>caption = None, rows = []\<rparr>,
               \<lparr>caption = Some ''Forecast Date: 2024-3-5'',
                rows = [[''Time (Hour)'', ''8'', ''9'', ''17''],
                        [''Temperature (oC)'', ''20'', ''21.5'', ''19''],
                        [''Wind Speed (km/h)'', ''15'', ''25'', ''30''],
                        [''Wind Direction'', ''E'', ''NE'', ''N''],
                        [''3-Hourly Rainfall (mm)'', ''0'', ''0.5'', ''1'']]\<rparr>])
        (\<lambda>m. None)) \<noteq> []
   \<and> parse_forecast_table
        \<lparr>caption = Some ''Forecast Date: 2024-3-5'',
         rows = [[''Time (Hour)'', ''8'', ''17''], [''Temperature (oC)'', ''20'', ''19''],
                 [''Wind Speed (km/h)'', ''15'', ''30''], [''Wind Direction'', ''E'', ''N''],
                 [''3-Hourly Rainfall (mm)'', ''0'', ''1'']]\<rparr>
      = Inr (\<lparr>year = 2024, month = 3, day = 5\<rparr>,
             [\<lparr>hour = 8, temperature = Decimal 20 0, wind_speed = 15, wind_direction = ''E'',
               rain_fall = Decimal 0 0\<rparr>,
              \<lparr>hour = 17, temperature = Decimal 19 0, wind_speed = 30, wind_direction = ''N'',
               rain_fall = Decimal 1 0\<rparr>])
   \<and> sent (lambda_handler
        (\<lambda>l. Inr [\<lparr>caption = None, rows = []\<rparr>,
               \<lparr>caption = Some ''Forecast Date: 2024-3-5'',
                rows = [[''Time (Hour)'', ''8'', ''17''], [''Temperature (oC)'', ''20'', ''19''],
                        [''Wind Speed (km/h)'', ''15'', ''30''], [''Wind Direction'', ''E'', ''N''],
                        [''3-Hourly Rainfall (mm)'', ''0'', ''1'']]\<rparr>])
        (\<lambda>m. None)) = []"
proof -
  let ?legend = "\<lparr>caption = None, rows = []\<rparr>"
  let ?windy = "\<lparr>caption = Some ''Forecast Date: 2024-3-5'',
                rows = [[''Time (Hour)'', ''8'', ''9'', ''17''],
                        [''Temperature (oC)'', ''20'', ''21.5'', ''19''],
                        [''Wind Speed (km/h)'', ''15'', ''25'', ''30''],
                        [''Wind Direction'', ''E'', ''NE'', ''N''],
                        [''3-Hourly Rainfall (mm)'', ''0'', ''0.5'', ''1'']]\<rparr>"
  let ?calm = "\<lparr>caption = Some ''Forecast Date: 2024-3-5'',
         rows = [[''Time (Hour)'', ''8'', ''17''], [''Temperature (oC)'', ''20'', ''19''],
                 [''Wind Speed (km/h)'', ''15'', ''30''], [''Wind Direction'', ''E'', ''N''],
                 [''3-Hourly Rainfall (mm)'', ''0'', ''1'']]\<rparr>"
  let ?d = "\<lparr>year = 2024, month = 3, day = 5\<rparr>"
  let ?h8 = "\<lparr>hour = 8, temperature = Decimal 20 0, wind_speed = 15, wind_direction = ''E'',
               rain_fall = Decimal 0 0\<rparr>"
  let ?h9 = "\<lparr>hour = 9, temperature = Decimal 215 (- 1), wind_speed = 25, wind_direction = ''NE'',
             rain_fall = Decimal 5 (- 1)\<rparr>"
  let ?h17 = "\<lparr>hour = 17, temperature = Decimal 19 0, wind_speed = 30, wind_direction = ''N'',
               rain_fall = Decimal 1 0\<rparr>"
  let ?F = "\<lambda>l :: string. (Inr [?legend, ?windy] :: error + table list)"
  let ?G = "\<lambda>l :: string. (Inr [?legend, ?calm] :: error + table list)"
  let ?P = "\<lambda>m :: string \<times> string. (None :: error option)"
  have pw: "parse_forecast_table ?windy = Inr (?d, [?h8, ?h9, ?h17])" by code_simp
  have pc: "parse_forecast_table ?calm = Inr (?d, [?h8, ?h17])" by code_simp
  have st: "\<not> is_strong ?h8" "is_strong ?h9" "\<not> is_strong ?h17"
    by (simp_all add: is_strong_def HOUR_RANGE_def MIN_WIND_SPEED_def)
  have ok: "\<forall>l \<in> set (map fst LOCATIONS). \<exists>ts. ?F l = Inr ts
        \<and> (\<forall>tbl \<in> set (drop 1 ts). \<exists>d fs. parse_forecast_table tbl = Inr (d, fs))"
    using pw by simp
  have s: "''S'' \<in> set (map fst LOCATIONS)" by (simp add: LOCATIONS_def)
  have "\<exists>ts. ?F ''S'' = Inr ts \<and> (\<exists>tbl \<in> set (drop 1 ts). \<exists>d fs.
      parse_forecast_table tbl = Inr (d, fs) \<and> (\<exists>f \<in> set fs. is_strong f))"
    using pw st(2) by simp
  then have strong: "\<exists>l \<in> set (map fst LOCATIONS). \<exists>ts. ?F l = Inr ts \<and>
      (\<exists>tbl \<in> set (drop 1 ts). \<exists>d fs.
         parse_forecast_table tbl = Inr (d, fs) \<and> (\<exists>f \<in> set fs. is_strong f))"
    using s by (rule bexI)
  note t = notifier_called_iff_finding [of ?F ?P]
  from strong have 1: "sent (lambda_handler ?F ?P) \<noteq> []"
    by (rule t [THEN conjunct1, THEN mp, OF ok, THEN iffD2])
  have none: "\<forall>l ts tbl d fs. l \<in> set (map fst LOCATIONS) \<and> ?G l = Inr ts
       \<and> tbl \<in> set (drop 1 ts) \<and> parse_forecast_table tbl = Inr (d, fs) \<longrightarrow> (\<forall>f \<in> set fs. \<not> is_strong f)"
  proof (intro allI impI)
    fix l ts tbl d fs
    assume a: "l \<in> set (map fst LOCATIONS) \<and> ?G l = Inr ts
       \<and> tbl \<in> set (drop 1 ts) \<and> parse_forecast_table tbl = Inr (d, fs)"
    then have "ts = [?legend, ?calm]" by simp
    with a have "tbl = ?calm" by simp
    with a have "parse_forecast_table ?calm = Inr (d, fs)" by simp
    with pc have "fs = [?h8, ?h17]" by simp
    with st show "\<forall>f \<in> set fs. \<not> is_strong f" by simp
  qed
  note u = notifier_called_iff_finding [of ?G ?P]
  from none have 2: "sent (lambda_handler ?G ?P) = []"
    by (rule u [THEN conjunct2, THEN conjunct2, THEN conjunct2, THEN mp])
  show ?thesis by (intro conjI) (fact pw, fact st(2), fact 1, fact pc, fact 2)
qed

text \<open>
  C5 as stated fails in a run that a later failure ends: the table of the first location
  gives a finding, the table of the second has no rows and its parse raises
  \<open>IndexError\<close>, which leaves the handler; the notifier is not called although a finding
  exists.
\<close>

theorem finding_lost_when_run_aborts:
  "tables_loop ''TMTWSC''
     (drop 1 [\<lparr>caption = None, rows = []\<rparr>,
              \<lparr>caption = Some ''Forecast Date: 2024-3-5'',
               rows = [[''Time (Hour)'', ''9''], [''Temperature (oC)'', ''21.5''],
                       [''Wind Speed (km/h)'', ''25''], [''Wind Direction'', ''NE''],
                       [''3-Hourly Rainfall (mm)'', ''0.5'']]\<rparr>]) []
   = Inr [(\<lparr>year = 2024, month = 3, day = 5\<rparr>, ''TMTWSC'',
           [\<lparr>hour = 9, temperature = Decimal 215 (- 1), wind_speed = 25, wind_direction = ''NE'',
             rain_fall = Decimal 5 (- 1)\<rparr>])]
   \<and> lambda_handler
       (\<lambda>l. if l = ''TMTWSC''
            then Inr [\<lparr>caption = None, rows = []\<rparr>,
                      \<lparr>caption = Some ''Forecast Date: 2024-3-5'',
                       rows = [[''Time (Hour)'', ''9''], [''Temperature (oC)'', ''21.5''],
                               [''Wind Speed (km/h)'', ''25''], [''Wind Direction'', ''NE''],
                               [''3-Hourly Rainfall (mm)'', ''0.5'']]\<rparr>]
            else Inr [\<lparr>caption = None, rows = []\<rparr>,
                      \<lparr>caption = Some ''Forecast Date: 2024-3-5'', rows = []\<rparr>])
       (\<lambda>m. None)
     = \<lparr>raised = Some IndexError, sent = []\<rparr>"
  by code_simp

text \<open>
  C6 (as amended). A failure of the request or of the parse of a table, for any one location,
  ends the whole run: the exception leaves \<open>lambda_handler\<close> and the notifier is not
  called, whatever the other locations hold.
\<close>

theorem failure_aborts_run:
  assumes "l \<in> set (map fst LOCATIONS)"
    and "(\<exists>e. fetch l = Inl e)
         \<or> (\<exists>ts tbl e. fetch l = Inr ts \<and> tbl \<in> set (drop 1 ts) \<and> parse_forecast_table tbl = Inl e)"
  shows "\<exists>e. lambda_handler fetch publish = \<lparr>raised = Some e, sent = []\<rparr>"
proof -
  from locations_loop_fail [of l "map fst LOCATIONS" fetch "[]", OF assms] obtain e where
    "locations_loop fetch (map fst LOCATIONS) [] = Inl e" by blast
  then show ?thesis by (simp add: lambda_handler_def)
qed

theorem failure_aborts_run_witness:
  "''TM'' \<in> set (map fst LOCATIONS)
   \<and> lambda_handler
       (\<lambda>l. if l = ''TM'' then Inl (FetchError ''timed out'')
            else Inr [\<lparr>caption = None, rows = []\<rparr>,
                      \<lparr>caption = Some ''Forecast Date: 2024-3-5'',
                       rows = [[''Time (Hour)'', ''9''], [''Temperature (oC)'', ''21.5''],
                               [''Wind Speed (km/h)'', ''25''], [''Wind Direction'', ''NE''],
                               [''3-Hourly Rainfall (mm)'', ''0.5'']]\<rparr>])
       (\<lambda>m. None)
     = \<lparr>raised = Some (FetchError ''timed out''), sent = []\<rparr>"
proof -
  let ?fetch = "\<lambda>l. if l = ''TM'' then Inl (FetchError ''timed out'')
            else Inr [\<lparr>caption = None, rows = []\<rparr>,
                      \<lparr>caption = Some ''Forecast Date: 2024-3-5'',
                       rows = [[''Time (Hour)'', ''9''], [''Temperature (oC)'', ''21.5''],
                               [''Wind Speed (km/h)'', ''25''], [''Wind Direction'', ''NE''],
                               [''3-Hourly Rainfall (mm)'', ''0.5'']]\<rparr>]"
  have m: "''TM'' \<in> set (map fst LOCATIONS)" by (simp add: LOCATIONS_def)
  have "?fetch ''TM'' = Inl (FetchError ''timed out'')" by simp
  then have f: "(\<exists>e. ?fetch ''TM'' = Inl e)
         \<or> (\<exists>ts tbl e. ?fetch ''TM'' = Inr ts \<and> tbl \<in> set (drop 1 ts) \<and> parse_forecast_table tbl = Inl e)"
    by (intro disjI1 exI)
  from failure_aborts_run [of "''TM''" ?fetch "\<lambda>m. None", OF m f]
  obtain e where r: "lambda_handler ?fetch (\<lambda>m. None) = \<lparr>raised = Some e, sent = []\<rparr>"
    by (rule exE)
  have "locations_loop ?fetch (map fst LOCATIONS) [] = Inl (FetchError ''timed out'')"
    by code_simp
  then have v: "lambda_handler ?fetch (\<lambda>m. None) = \<lparr>raised = Some (FetchError ''timed out''), sent = []\<rparr>"
    by (simp add: lambda_handler_def)
  from r v have "e = FetchError ''timed out''" by simp
  with r have "lambda_handler ?fetch (\<lambda>m. None) = \<lparr>raised = Some (FetchError ''timed out''), sent = []\<rparr>"
    by simp
  with m show ?thesis by (intro conjI)
qed

text \<open>
  C6 as stated fails: the first location has a table with a strong hour, which alone gives
  a finding; the table of the second location has no caption; the run ends with the
  exception of that table and nothing is sent, although the third location has a strong
  hour too.
\<close>

theorem one_failure_suppresses_alert:
  "tables_loop ''TMTWSC''
     (drop 1 [\<lparr>caption = None, rows = []\<rparr>,
              \<lparr>caption = Some ''Forecast Date: 2024-3-5'',
               rows = [[''Time (Hour)'', ''9''], [''Temperature (oC)'', ''21.5''],
                       [''Wind Speed (km/h)'', ''25''], [''Wind Direction'', ''NE''],
                       [''3-Hourly Rainfall (mm)'', ''0.5'']]\<rparr>]) []
   = Inr [(\<lparr>year = 2024, month = 3, day = 5\<rparr>, ''TMTWSC'',
           [\<lparr>hour = 9, temperature = Decimal 215 (- 1), wind_speed = 25, wind_direction = ''NE'',
             rain_fall = Decimal 5 (- 1)\<rparr>])]
   \<and> lambda_handler
       (\<lambda>l. if l = ''S''
            then Inr [\<lparr>caption = None, rows = []\<rparr>,
                      \<lparr>caption = None,
                       rows = [[''Time (Hour)'', ''9''], [''Temperature (oC)'', ''21.5''],
                               [''Wind Speed (km/h)'', ''25''], [''Wind Direction'', ''NE''],
                               [''3-Hourly Rainfall (mm)'', ''0.5'']]\<rparr>]
            else Inr [\<lparr>caption = None, rows = []\<rparr>,
                      \<lparr>caption = Some ''Forecast Date: 2024-3-5'',
                       rows = [[''Time (Hour)'', ''9''], [''Temperature (oC)'', ''21.5''],
                               [''Wind Speed (km/h)'', ''25''], [''Wind Direction'', ''NE''],
                               [''3-Hourly Rainfall (mm)'', ''0.5'']]\<rparr>])
       (\<lambda>m. None)
     = \<lparr>raised = Some MissingCaptionError, sent = []\<rparr>"
  by code_simp

end
